theory Spec2Isabelle
  imports Main
begin

section \<open>Python strings\<close>

text \<open>
  A Python \<open>str\<close> is a sequence of code points. The model covers the code points below 256:
  a \<^typ>\<open>char\<close> is read as the code point with that number, and \<open>length\<close> counts code
  points. On this range \<open>str.isspace\<close>, \<open>str.lower\<close>, \<open>str.strip\<close>, \<open>str.split\<close> and
  the substring test \<open>in\<close> are as below.
\<close>

definition py_isspace :: "char \<Rightarrow> bool" where
  "py_isspace c = (let n = (of_char c :: nat) in
     (9 \<le> n \<and> n \<le> 13) \<or> (28 \<le> n \<and> n \<le> 32) \<or> n = 133 \<or> n = 160)"

definition lower_char :: "char \<Rightarrow> char" where
  "lower_char c = (let n = (of_char c :: nat) in
     if (65 \<le> n \<and> n \<le> 90) \<or> (192 \<le> n \<and> n \<le> 214) \<or> (216 \<le> n \<and> n \<le> 222)
     then char_of (n + 32) else c)"

definition lower :: "string \<Rightarrow> string" where
  "lower s = map lower_char s"

definition lstrip :: "string \<Rightarrow> string" where
  "lstrip s = dropWhile py_isspace s"

definition rstrip :: "string \<Rightarrow> string" where
  "rstrip s = rev (dropWhile py_isspace (rev s))"

definition strip :: "string \<Rightarrow> string" where
  "strip s = rstrip (lstrip s)"

text \<open>
  \<open>s.split(sep)\<close> for a separator of one character: the segments between the separators,
  in order; the result is never empty (the second branch of the \<open>case\<close> is never taken).
\<close>

fun split_on :: "char \<Rightarrow> string \<Rightarrow> string list" where
  "split_on sep [] = [[]]"
| "split_on sep (c # cs) =
     (if c = sep then [] # split_on sep cs
      else (case split_on sep cs of seg # segs \<Rightarrow> (c # seg) # segs | [] \<Rightarrow> [[c]]))"

text \<open>\<open>k in s\<close>: \<open>k\<close> occurs in \<open>s\<close> as a contiguous substring.\<close>

fun contains :: "string \<Rightarrow> string \<Rightarrow> bool" where
  "contains k [] = (k = [])"
| "contains k (c # cs) = (take (length k) (c # cs) = k \<or> contains k cs)"

text \<open>Truthiness of a \<open>str\<close>: every string but the empty one.\<close>

definition truthy :: "string \<Rightarrow> bool" where
  "truthy s = (s \<noteq> [])"

text \<open>A string is blank when it is empty or holds whitespace only.\<close>

definition blank :: "string \<Rightarrow> bool" where
  "blank s = (\<forall>c \<in> set s. py_isspace c)"

text \<open>The segments of a list of strings joined by a separator (\<open>sep.join(segs)\<close>).\<close>

fun join :: "char \<Rightarrow> string list \<Rightarrow> string" where
  "join sep [] = []"
| "join sep [seg] = seg"
| "join sep (seg # segs) = seg @ sep # join sep segs"

section \<open>Regular expressions\<close>

text \<open>
  The fragment of \<open>re\<close> that the email pattern uses: character classes given by inclusive
  ranges, concatenation, alternation and repetition. \<open>matches\<close> is what it means for a whole
  string to match; \<open>accepts\<close> decides it by derivatives.
\<close>

datatype regex =
    Nothing
  | Empty_string
  | Char_class "(char \<times> char) list"
  | Seq regex regex
  | Alt regex regex
  | Star regex

definition in_class :: "(char \<times> char) list \<Rightarrow> char \<Rightarrow> bool" where
  "in_class ranges c =
     list_ex (\<lambda>(lo, hi). (of_char lo :: nat) \<le> of_char c \<and> (of_char c :: nat) \<le> of_char hi) ranges"

inductive matches :: "regex \<Rightarrow> string \<Rightarrow> bool" where
  m_empty: "matches Empty_string []"
| m_class: "in_class ranges c \<Longrightarrow> matches (Char_class ranges) [c]"
| m_seq: "matches r xs \<Longrightarrow> matches q ys \<Longrightarrow> matches (Seq r q) (xs @ ys)"
| m_alt1: "matches r xs \<Longrightarrow> matches (Alt r q) xs"
| m_alt2: "matches q xs \<Longrightarrow> matches (Alt r q) xs"
| m_star_nil: "matches (Star r) []"
| m_star_step: "matches r xs \<Longrightarrow> matches (Star r) ys \<Longrightarrow> matches (Star r) (xs @ ys)"

fun nullable :: "regex \<Rightarrow> bool" where
  "nullable Nothing = False"
| "nullable Empty_string = True"
| "nullable (Char_class ranges) = False"
| "nullable (Seq r q) = (nullable r \<and> nullable q)"
| "nullable (Alt r q) = (nullable r \<or> nullable q)"
| "nullable (Star r) = True"

fun deriv :: "char \<Rightarrow> regex \<Rightarrow> regex" where
  "deriv c Nothing = Nothing"
| "deriv c Empty_string = Nothing"
| "deriv c (Char_class ranges) = (if in_class ranges c then Empty_string else Nothing)"
| "deriv c (Seq r q) =
     (if nullable r then Alt (Seq (deriv c r) q) (deriv c q) else Seq (deriv c r) q)"
| "deriv c (Alt r q) = Alt (deriv c r) (deriv c q)"
| "deriv c (Star r) = Seq (deriv c r) (Star r)"

fun accepts :: "regex \<Rightarrow> string \<Rightarrow> bool" where
  "accepts r [] = nullable r"
| "accepts r (c # cs) = accepts (deriv c r) cs"

text \<open>\<open>r+\<close> and \<open>r{2,}\<close>.\<close>

definition one_or_more :: "regex \<Rightarrow> regex" where
  "one_or_more r = Seq r (Star r)"

definition two_or_more :: "regex \<Rightarrow> regex" where
  "two_or_more r = Seq r (Seq r (Star r))"

definition literal :: "char \<Rightarrow> regex" where
  "literal c = Char_class [(c, c)]"

text \<open>
  \<open>re.match('^' body '$', s) is not None\<close>, for a body that matches no line feed: \<open>^\<close> is the
  start of the string, and \<open>$\<close> is its end or the place just before a line feed that ends it.
\<close>

definition re_match_anchored :: "regex \<Rightarrow> string \<Rightarrow> bool" where
  "re_match_anchored body s =
     (accepts body s \<or> (s \<noteq> [] \<and> last s = CHR 0x0A \<and> accepts body (butlast s)))"

text \<open>The same, stated with \<open>matches\<close> in place of the decision procedure.\<close>

definition matches_anchored :: "regex \<Rightarrow> string \<Rightarrow> bool" where
  "matches_anchored body s = (matches body s \<or> (\<exists>t. s = t @ [CHR 0x0A] \<and> matches body t))"

section \<open>Session data\<close>

datatype stage = Greeting | Data_collection | Technical_assessment | Completion

text \<open>What \<open>json.loads\<close> returns: a JSON value. A number is kept by its text.\<close>

datatype json =
    JNull
  | JBool bool
  | JNum string
  | JStr string
  | JArr "json list"
  | JObj "(string \<times> json) list"

text \<open>
  The value stored as a technology's questions: the fallback and the line split give a list of
  strings, a JSON array gives a list of JSON values, and a JSON string sliced by \<open>[:5]\<close> gives
  a string, which the form then enumerates by character.
\<close>

datatype question_set = QList "json list" | QStr string

fun q_len :: "question_set \<Rightarrow> nat" where
  "q_len (QList xs) = length xs"
| "q_len (QStr s) = length s"

text \<open>The values of the seven widgets of the intake form: the dict passed to \<open>_save_candidate_data\<close>.\<close>

record intake =
  full_name :: string
  email :: string
  phone_number :: string
  years_experience :: int
  desired_positions :: "string list"
  current_location :: string
  tech_stack :: string

record tech_response =
  questions :: question_set
  answers :: "string list"

text \<open>
  \<open>candidate_data\<close> is a dict: empty at first (\<open>profile = None\<close>), then the seven intake keys,
  then also the key \<open>tech_responses\<close> (absent while \<open>tech_responses = None\<close>).
\<close>

record candidate_data =
  profile :: "intake option"
  tech_responses :: "(string \<rightharpoonup> tech_response) option"

type_synonym timestamp = nat

record entry =
  role :: string
  message :: string
  timestamp :: timestamp

record session_state =
  conversation_history :: "entry list"
  candidate_data :: candidate_data
  current_stage :: stage
  tech_questions :: "string \<rightharpoonup> question_set"
  current_tech_index :: nat
  tech_stack_list :: "string list"

text \<open>What a pass shows to the user. Texts with characters outside ASCII are constructors.\<close>

datatype ui_text =
    GREETING_MESSAGE
  | THANK_YOU_MESSAGE
  | Text string
  | Assessment_header string
  | Assessment_info string
  | Openai_warning
  | Use_forms_warning
  | Candidate_information
  | Assessment_complete

datatype ui =
    St_title
  | St_markdown ui_text
  | St_header ui_text
  | St_info ui_text
  | St_error ui_text
  | St_warning ui_text
  | St_success ui_text
  | St_balloons
  | St_json candidate_data

text \<open>
  What one run of the script reads from outside: the widgets' values, the credential stores,
  the clock (one reading for the run), and what the remote call does if this run makes it.
  \<open>Api_raises\<close> is a call that raises, or a reply without a text; \<open>Api_content\<close> carries
  the text of the first choice. \<open>json.loads\<close> gives a value, raises \<open>JSONDecodeError\<close>, or
  raises something else.
\<close>

datatype api_outcome = Api_raises | Api_content string

datatype loads_result = Loaded json | JSONDecodeError | Loads_raises

record world =
  chat_input :: "string option"
  begin_button :: bool
  info_form :: intake
  info_submitted :: bool
  answer_areas :: "nat \<Rightarrow> string"
  answers_submitted :: bool
  new_session_button :: bool
  api_outcome :: api_outcome
  secrets_key :: "string option"
  environ_key :: "string option"
  now :: timestamp

text \<open>
  Events of a pass, recorded for the statements about how often something happens:
  a call of \<open>generate_questions_for_tech\<close> and the saving of a technology's answers.
\<close>

datatype event = Generated string | Answers_saved string

record pass_result =
  after :: session_state
  shown :: "ui list"
  events :: "event list"
  rerun :: bool

section \<open>Config\<close>

definition EXIT_KEYWORDS :: "string list" where
  "EXIT_KEYWORDS = [''exit'', ''quit'', ''bye'', ''goodbye'', ''stop'']"

section \<open>ConversationManager\<close>

definition initial_state :: session_state where
  "initial_state =
     \<lparr>conversation_history = [],
      candidate_data = \<lparr>profile = None, tech_responses = None\<rparr>,
      current_stage = Greeting,
      tech_questions = Map.empty,
      current_tech_index = 0,
      tech_stack_list = []\<rparr>"

definition add_to_history :: "string \<Rightarrow> string \<Rightarrow> timestamp \<Rightarrow> session_state \<Rightarrow> session_state" where
  "add_to_history r m t s =
     s\<lparr>conversation_history :=
         conversation_history s @ [\<lparr>role = r, message = m, timestamp = t\<rparr>]\<rparr>"

section \<open>CandidateDataCollector\<close>

definition EMAIL_LOCAL :: regex where
  "EMAIL_LOCAL = Char_class
     [(CHR ''a'', CHR ''z''), (CHR ''A'', CHR ''Z''), (CHR ''0'', CHR ''9''),
      (CHR ''.'', CHR ''.''), (CHR ''_'', CHR ''_''), (CHR ''%'', CHR ''%''),
      (CHR ''+'', CHR ''+''), (CHR ''-'', CHR ''-'')]"

definition EMAIL_DOMAIN :: regex where
  "EMAIL_DOMAIN = Char_class
     [(CHR ''a'', CHR ''z''), (CHR ''A'', CHR ''Z''), (CHR ''0'', CHR ''9''),
      (CHR ''.'', CHR ''.''), (CHR ''-'', CHR ''-'')]"

definition EMAIL_TLD :: regex where
  "EMAIL_TLD = Char_class [(CHR ''a'', CHR ''z''), (CHR ''A'', CHR ''Z'')]"

text \<open>The body of the pattern \<^verbatim>\<open>^[a-zA-Z0-9._%+-]+@[a-zA-Z0-9.-]+\.[a-zA-Z]{2,}$\<close>.\<close>

definition EMAIL_PATTERN :: regex where
  "EMAIL_PATTERN =
     Seq (one_or_more EMAIL_LOCAL)
       (Seq (literal CHR ''@'')
         (Seq (one_or_more EMAIL_DOMAIN)
           (Seq (literal CHR ''.'') (two_or_more EMAIL_TLD))))"

definition validate_email :: "string \<Rightarrow> bool" where
  "validate_email e = re_match_anchored EMAIL_PATTERN e"

text \<open>\<open>_validate_form\<close>: the result, and what it shows.\<close>

definition validate_form ::
  "string \<Rightarrow> string \<Rightarrow> string \<Rightarrow> int \<Rightarrow> string list \<Rightarrow> string \<Rightarrow> string \<Rightarrow> bool \<times> ui list" where
  "validate_form fname mail phone years positions location stack =
     (if \<not> list_all truthy [fname, mail, phone, location, stack] then (False, [])
      else if positions = [] then (False, [])
      else if \<not> validate_email mail
        then (False, [St_error (Text ''Please enter a valid email address.'')])
      else (True, []))"

definition parse_tech_stack :: "string \<Rightarrow> string list" where
  "parse_tech_stack raw = [strip tech. tech \<leftarrow> split_on CHR '','' raw, truthy (strip tech)]"

definition save_candidate_data :: "intake \<Rightarrow> session_state \<Rightarrow> session_state" where
  "save_candidate_data data s =
     s\<lparr>candidate_data := \<lparr>profile = Some data, tech_responses = None\<rparr>,
       tech_stack_list := parse_tech_stack (tech_stack data)\<rparr>"

text \<open>\<open>collect_basic_info\<close>: whether the form was saved, the state, and what was shown.\<close>

definition collect_basic_info :: "world \<Rightarrow> session_state \<Rightarrow> bool \<times> session_state \<times> ui list" where
  "collect_basic_info w s =
     (if info_submitted w then
        (let f = info_form w;
             (ok, out) = validate_form (full_name f) (email f) (phone_number f)
                           (years_experience f) (desired_positions f) (current_location f)
                           (tech_stack f)
         in if ok then (True, save_candidate_data f s, St_header Candidate_information # out)
            else (False, s, St_header Candidate_information # out @
                   [St_error (Text ''Please fill in all required fields correctly.'')]))
      else (False, s, [St_header Candidate_information]))"

text \<open>
  The whole reading of the claim about intake in the spec's words: a field is rejected when it
  is empty or blank.
\<close>

definition intake_rejected_spec :: "intake \<Rightarrow> bool" where
  "intake_rejected_spec f =
     (blank (full_name f) \<or> blank (email f) \<or> blank (phone_number f) \<or>
      blank (current_location f) \<or> blank (tech_stack f) \<or> desired_positions f = [] \<or>
      \<not> matches_anchored EMAIL_PATTERN (email f))"

text \<open>
  The tech stack in the spec's words: split on commas, trim every segment, then drop the
  empty ones.
\<close>

definition tech_stack_spec :: "string \<Rightarrow> string list" where
  "tech_stack_spec raw = filter (\<lambda>seg. seg \<noteq> []) (map strip (split_on CHR '','' raw))"

section \<open>TechQuestionGenerator\<close>

record question_generator =
  api_key :: string

text \<open>
  \<open>__init__\<close>: the explicit argument, then the secrets store, then the environment. A missing
  key, and a secrets store that raises, are \<open>None\<close>.
\<close>

definition question_generator_init ::
  "string option \<Rightarrow> string option \<Rightarrow> string option \<Rightarrow> question_generator" where
  "question_generator_init arg secrets environ =
     (let k1 = (case arg of
                  Some k \<Rightarrow> if truthy k then k else (case secrets of Some v \<Rightarrow> v | None \<Rightarrow> [])
                | None \<Rightarrow> (case secrets of Some v \<Rightarrow> v | None \<Rightarrow> []));
          k2 = (if truthy k1 then k1 else (case environ of Some v \<Rightarrow> v | None \<Rightarrow> []))
      in \<lparr>api_key = k2\<rparr>)"

definition fallback_questions :: "(string \<times> string list) list" where
  "fallback_questions =
     [(''python'',
        [''What are the key differences between lists and tuples in Python?'',
         ''How does Python handle memory management?'',
         ''Explain the concept of decorators in Python.'',
         ''What are some common use cases for generators?'']),
      (''javascript'',
        [''Explain the event loop in JavaScript.'',
         ''What are the differences between let, const, and var?'',
         ''How does prototypal inheritance work in JavaScript?'',
         ''What are promises and how do they work?'']),
      (''react'',
        [''What is the virtual DOM and how does it work?'',
         ''Explain the component lifecycle methods.'',
         ''What are hooks and how do they differ from class components?'',
         ''How would you optimize React application performance?'']),
      (''node.js'',
        [''How does Node.js handle asynchronous operations?'',
         ''Explain the event-driven architecture of Node.js.'',
         ''What are streams and how are they used?'',
         ''How would you handle memory leaks in Node.js?''])]"

definition generic_questions :: "string \<Rightarrow> string list" where
  "generic_questions technology =
     [''What experience do you have with '' @ technology @ ''?'',
      ''Describe a challenging project you built using '' @ technology @ ''.'',
      ''What are the best practices for working with '' @ technology @ ''?'',
      ''How would you troubleshoot performance issues in '' @ technology @ ''?'']"

text \<open>The loop over the table in its order: the first key found in the lowercased name.\<close>

fun first_match :: "string \<Rightarrow> (string \<times> string list) list \<Rightarrow> string list option" where
  "first_match tech_lower [] = None"
| "first_match tech_lower ((key, qs) # rest) =
     (if contains key tech_lower then Some qs else first_match tech_lower rest)"

definition get_fallback_questions :: "string \<Rightarrow> string list" where
  "get_fallback_questions technology =
     (case first_match (lower technology) fallback_questions of
        Some qs \<Rightarrow> qs
      | None \<Rightarrow> generic_questions technology)"

text \<open>\<open>questions[:5]\<close>: a list and a string can be sliced; any other JSON value raises.\<close>

fun slice5 :: "json \<Rightarrow> question_set option" where
  "slice5 (JArr xs) = Some (QList (take 5 xs))"
| "slice5 (JStr s) = Some (QStr (take 5 s))"
| "slice5 j = None"

text \<open>
  The body of the \<open>try\<close>: \<open>None\<close> when it raises. \<open>loads\<close> is \<open>json.loads\<close>, a parameter of the
  model. \<open>Api_raises\<close> stands for every exception before the reply's text is at hand.
\<close>

definition remote_questions :: "(string \<Rightarrow> loads_result) \<Rightarrow> api_outcome \<Rightarrow> question_set option" where
  "remote_questions loads outcome =
     (case outcome of
        Api_raises \<Rightarrow> None
      | Api_content content \<Rightarrow>
          (let questions_text = strip content in
           case loads questions_text of
             Loaded j \<Rightarrow> slice5 j
           | JSONDecodeError \<Rightarrow>
               slice5 (JArr [JStr (strip q). q \<leftarrow> split_on CHR 0x0A questions_text, truthy (strip q)])
           | Loads_raises \<Rightarrow> None))"

definition generate_questions_for_tech ::
  "question_generator \<Rightarrow> (string \<Rightarrow> loads_result) \<Rightarrow> api_outcome \<Rightarrow> string \<Rightarrow> int
     \<Rightarrow> question_set \<times> ui list" where
  "generate_questions_for_tech gen loads outcome technology experience_level =
     (if \<not> truthy (api_key gen) then (QList (map JStr (get_fallback_questions technology)), [])
      else (case remote_questions loads outcome of
              Some qs \<Rightarrow> (qs, [])
            | None \<Rightarrow> (QList (map JStr (get_fallback_questions technology)),
                        [St_warning Openai_warning])))"

text \<open>
  A decoder that agrees with \<open>json.loads\<close> on the texts it is evaluated at below: \<^verbatim>\<open>[]\<close>
  decodes to the empty array, and the empty text and \<^verbatim>\<open>Q1\<close> are not JSON. The theorems
  hold for every decoder; this one serves the concrete runs.
\<close>

definition loads_empty_array :: "string \<Rightarrow> loads_result" where
  "loads_empty_array t = (if t = ''[]'' then Loaded (JArr []) else JSONDecodeError)"

section \<open>TalentScoutApp\<close>

definition show_greeting :: "world \<Rightarrow> session_state \<Rightarrow> pass_result" where
  "show_greeting w s =
     (if begin_button w
      then \<lparr>after = s\<lparr>current_stage := Data_collection\<rparr>,
            shown = [St_markdown GREETING_MESSAGE], events = [], rerun = True\<rparr>
      else \<lparr>after = s, shown = [St_markdown GREETING_MESSAGE], events = [], rerun = False\<rparr>)"

definition collect_candidate_data :: "world \<Rightarrow> session_state \<Rightarrow> pass_result" where
  "collect_candidate_data w s =
     (let (ok, s1, out) = collect_basic_info w s in
      if ok
      then \<lparr>after = add_to_history ''system'' ''Candidate completed basic information form''
                      (now w) (s1\<lparr>current_stage := Technical_assessment\<rparr>),
            shown = out, events = [], rerun = True\<rparr>
      else \<lparr>after = s1, shown = out, events = [], rerun = False\<rparr>)"

text \<open>
  The questions of the current technology: the stored ones, or, when there are none, the ones
  generated now and stored.
\<close>

definition ensure_questions ::
  "question_generator \<Rightarrow> (string \<Rightarrow> loads_result) \<Rightarrow> world \<Rightarrow> string \<Rightarrow> session_state
     \<Rightarrow> session_state \<times> question_set \<times> ui list \<times> event list" where
  "ensure_questions gen loads w current_tech s =
     (case tech_questions s current_tech of
        Some qs \<Rightarrow> (s, qs, [], [])
      | None \<Rightarrow>
          (let experience = (case profile (candidate_data s) of
                               Some f \<Rightarrow> years_experience f | None \<Rightarrow> 0);
               (qs, out) = generate_questions_for_tech gen loads (api_outcome w)
                             current_tech experience
           in (s\<lparr>tech_questions := (tech_questions s)(current_tech \<mapsto> qs)\<rparr>, qs, out,
               [Generated current_tech])))"

definition save_responses :: "string \<Rightarrow> question_set \<Rightarrow> string list \<Rightarrow> session_state \<Rightarrow> session_state" where
  "save_responses current_tech qs responses s =
     (let cd = candidate_data s;
          old = (case tech_responses cd of Some m \<Rightarrow> m | None \<Rightarrow> Map.empty);
          new = old(current_tech \<mapsto> \<lparr>questions = qs, answers = responses\<rparr>)
      in s\<lparr>candidate_data := cd\<lparr>tech_responses := Some new\<rparr>,
           current_tech_index := current_tech_index s + 1\<rparr>)"

definition conduct_technical_assessment ::
  "question_generator \<Rightarrow> (string \<Rightarrow> loads_result) \<Rightarrow> world \<Rightarrow> session_state \<Rightarrow> pass_result" where
  "conduct_technical_assessment gen loads w s =
     (let stack = tech_stack_list s in
      if stack = []
      then \<lparr>after = s, shown = [St_error (Text ''No technologies specified for assessment.'')],
            events = [], rerun = False\<rparr>
      else
        (let current_index = current_tech_index s in
         if current_index \<ge> length stack
         then \<lparr>after = s\<lparr>current_stage := Completion\<rparr>, shown = [], events = [], rerun = True\<rparr>
         else
           (let current_tech = stack ! current_index;
                (s1, qs, out, evs) = ensure_questions gen loads w current_tech s;
                head = out @ [St_header (Assessment_header current_tech),
                              St_info (Assessment_info current_tech)];
                responses = map (answer_areas w) [0..<q_len qs]
            in if answers_submitted w then
                 (if list_all truthy responses
                  then \<lparr>after = save_responses current_tech qs responses s1, shown = head,
                        events = evs @ [Answers_saved current_tech], rerun = True\<rparr>
                  else \<lparr>after = s1,
                        shown = head @
                          [St_error (Text ''Please answer all questions before submitting.'')],
                        events = evs, rerun = False\<rparr>)
               else \<lparr>after = s1, shown = head, events = evs, rerun = False\<rparr>)))"

text \<open>
  \<open>_show_completion\<close>: the button deletes every key of the session state; the next run's
  \<open>__init__\<close> sets each to its initial value again, so the state after is the initial one.
\<close>

definition show_completion :: "world \<Rightarrow> session_state \<Rightarrow> pass_result" where
  "show_completion w s =
     (let out = [St_balloons, St_success Assessment_complete, St_markdown THANK_YOU_MESSAGE,
                 St_json (candidate_data s)]
      in if new_session_button w
         then \<lparr>after = initial_state, shown = out, events = [], rerun = True\<rparr>
         else \<lparr>after = s, shown = out, events = [], rerun = False\<rparr>)"

definition is_exit_message :: "string \<Rightarrow> bool" where
  "is_exit_message user_input = list_ex (\<lambda>keyword. contains keyword (lower user_input)) EXIT_KEYWORDS"

definition check_exit_command :: "world \<Rightarrow> session_state \<Rightarrow> bool \<times> session_state \<times> ui list" where
  "check_exit_command w s =
     (case chat_input w of
        None \<Rightarrow> (False, s, [])
      | Some user_input \<Rightarrow>
          (if truthy user_input then
             (let s1 = add_to_history ''user'' user_input (now w) s in
              if is_exit_message user_input
              then (True, s1, [St_info THANK_YOU_MESSAGE])
              else (False, s1, [St_warning Use_forms_warning]))
           else (False, s, [])))"

definition dispatch :: "(string \<Rightarrow> loads_result) \<Rightarrow> world \<Rightarrow> session_state \<Rightarrow> pass_result" where
  "dispatch loads w s =
     (case current_stage s of
        Greeting \<Rightarrow> show_greeting w s
      | Data_collection \<Rightarrow> collect_candidate_data w s
      | Technical_assessment \<Rightarrow>
          conduct_technical_assessment
            (question_generator_init None (secrets_key w) (environ_key w)) loads w s
      | Completion \<Rightarrow> show_completion w s)"

text \<open>\<open>run\<close>: one run of the script.\<close>

definition run :: "(string \<Rightarrow> loads_result) \<Rightarrow> world \<Rightarrow> session_state \<Rightarrow> pass_result" where
  "run loads w s =
     (let (exit, s1, out) = check_exit_command w s in
      if exit then \<lparr>after = s1, shown = St_title # out, events = [], rerun = False\<rparr>
      else (let r = dispatch loads w s1 in r\<lparr>shown := St_title # out @ shown r\<rparr>))"

text \<open>A session: the runs of the script one after the other, each with what it reads.\<close>

fun run_all :: "(string \<Rightarrow> loads_result) \<Rightarrow> world list \<Rightarrow> session_state \<Rightarrow> session_state" where
  "run_all loads [] s = s"
| "run_all loads (w # ws) s = run_all loads ws (after (run loads w s))"

fun events_all :: "(string \<Rightarrow> loads_result) \<Rightarrow> world list \<Rightarrow> session_state \<Rightarrow> event list" where
  "events_all loads [] s = []"
| "events_all loads (w # ws) s =
     events (run loads w s) @ events_all loads ws (after (run loads w s))"

text \<open>A session without a restart: the new-session button is never pressed.\<close>

definition no_restart :: "world list \<Rightarrow> bool" where
  "no_restart ws = list_all (\<lambda>w. \<not> new_session_button w) ws"

definition saved_count :: "event list \<Rightarrow> nat" where
  "saved_count evs = length (filter (\<lambda>e. case e of Answers_saved t \<Rightarrow> True | Generated t \<Rightarrow> False) evs)"

definition generated_count :: "string \<Rightarrow> event list \<Rightarrow> nat" where
  "generated_count t evs = length (filter (\<lambda>e. e = Generated t) evs)"

text \<open>A world in which nothing is pressed or typed, for building concrete sessions.\<close>

definition blank_form :: intake where
  "blank_form = \<lparr>full_name = [], email = [], phone_number = [], years_experience = 0,
                 desired_positions = [], current_location = [], tech_stack = []\<rparr>"

definition idle :: world where
  "idle = \<lparr>chat_input = None, begin_button = False, info_form = blank_form,
           info_submitted = False, answer_areas = (\<lambda>i. []), answers_submitted = False,
           new_session_button = False, api_outcome = Api_raises, secrets_key = None,
           environ_key = None, now = 0\<rparr>"

text \<open>An intake form that passes validation, for concrete sessions.\<close>

definition sample_form :: intake where
  "sample_form = \<lparr>full_name = ''Ada'', email = ''a@b.co'', phone_number = ''1'',
     years_experience = 2, desired_positions = [''QA Engineer''], current_location = ''X'',
     tech_stack = ''Python, JavaScript,  , React''\<rparr>"

text \<open>
  The cursor and the stage go together: the cursor is 0 before the assessment, at most the
  length of the tech stack during it, and equal to that length, which is not 0, at completion.
\<close>

definition cursor_inv :: "session_state \<Rightarrow> nat \<Rightarrow> bool" where
  "cursor_inv s k =
     (current_tech_index s = k \<and>
      (case current_stage s of
         Greeting \<Rightarrow> k = 0
       | Data_collection \<Rightarrow> k = 0
       | Technical_assessment \<Rightarrow> k \<le> length (tech_stack_list s)
       | Completion \<Rightarrow> tech_stack_list s \<noteq> [] \<and> k = length (tech_stack_list s)))"

text \<open>
  Concrete sessions: the candidate begins, submits \<open>sample_form\<close>, submits answers three times
  and the script runs once more; and a session whose form gives a tech stack of commas and
  blanks only.
\<close>

definition answering :: world where
  "answering = idle\<lparr>answers_submitted := True, answer_areas := (\<lambda>i. ''ok'')\<rparr>"

definition full_session :: "world list" where
  "full_session =
     [idle\<lparr>begin_button := True\<rparr>,
      idle\<lparr>info_submitted := True, info_form := sample_form\<rparr>,
      answering, answering, answering, idle]"

definition comma_session :: "world list" where
  "comma_session =
     [idle\<lparr>begin_button := True\<rparr>,
      idle\<lparr>info_submitted := True, info_form := sample_form\<lparr>tech_stack := '' , ''\<rparr>\<rparr>]"

text \<open>
  The state once the candidate has begun and submitted \<open>sample_form\<close>; a submission that
  leaves every answer box empty; and a run with a credential whose reply is the empty JSON
  array.
\<close>

definition ready_state :: session_state where
  "ready_state =
     run_all loads_empty_array
       [idle\<lparr>begin_button := True\<rparr>, idle\<lparr>info_submitted := True, info_form := sample_form\<rparr>]
       initial_state"

definition unanswered :: world where
  "unanswered = idle\<lparr>answers_submitted := True\<rparr>"

definition empty_reply :: world where
  "empty_reply = idle\<lparr>environ_key := Some ''sk-test'', api_outcome := Api_content ''[]''\<rparr>"

text \<open>
  A decoder that agrees with \<open>json.loads\<close> on the texts it is evaluated at below: the empty
  array, an array of six numbers, the string \<open>hello world\<close> in double quotes, the empty object,
  and, not being JSON, a reply of lines \<open>Q1\<close> to \<open>Q6\<close> with a blank line among them.
\<close>

definition loads_samples :: "string \<Rightarrow> loads_result" where
  "loads_samples t =
     (if t = ''[]'' then Loaded (JArr [])
      else if t = ''[1, 2, 3, 4, 5, 6]''
        then Loaded (JArr [JNum ''1'', JNum ''2'', JNum ''3'', JNum ''4'', JNum ''5'', JNum ''6''])
      else if t = CHR 0x22 # ''hello world'' @ [CHR 0x22] then Loaded (JStr ''hello world'')
      else if t = ''{}'' then Loaded (JObj [])
      else JSONDecodeError)"

definition six_lines :: string where
  "six_lines = join CHR 0x0A [''Q1'', '' Q2 '', ''  '', ''Q3'', ''Q4'', ''Q5'', ''Q6'']"

section \<open>Substrings and the fallback table\<close>

lemma contains_iff: "contains k s \<longleftrightarrow> (\<exists>a b. s = a @ k @ b)"
proof (induction s)
  case Nil
  then show ?case by auto
next
  case (Cons c cs)
  show ?case
  proof
    assume "contains k (c # cs)"
    then consider "take (length k) (c # cs) = k" | "contains k cs" by auto
    then show "\<exists>a b. c # cs = a @ k @ b"
    proof cases
      case 1
      then have "c # cs = [] @ k @ drop (length k) (c # cs)"
        by (metis append_Nil append_take_drop_id)
      then show ?thesis by blast
    next
      case 2
      then obtain a b where "cs = a @ k @ b" using Cons.IH by blast
      then have "c # cs = (c # a) @ k @ b" by simp
      then show ?thesis by blast
    qed
  next
    assume "\<exists>a b. c # cs = a @ k @ b"
    then obtain a b where ab: "c # cs = a @ k @ b" by blast
    show "contains k (c # cs)"
    proof (cases a)
      case Nil
      then have "take (length k) (c # cs) = k" using ab by simp
      then show ?thesis by simp
    next
      case (Cons x a')
      then have "cs = a' @ k @ b" using ab by simp
      then have "contains k cs" using Cons.IH by blast
      then show ?thesis by simp
    qed
  qed
qed

lemma first_match_first:
  "i < length tbl \<Longrightarrow> contains (fst (tbl ! i)) nm \<Longrightarrow>
   (\<forall>j<i. \<not> contains (fst (tbl ! j)) nm) \<Longrightarrow> first_match nm tbl = Some (snd (tbl ! i))"
proof (induction tbl arbitrary: i)
  case Nil
  then show ?case by simp
next
  case (Cons kq rest)
  obtain k qs where kq: "kq = (k, qs)" by (cases kq)
  show ?case
  proof (cases i)
    case 0
    then show ?thesis using Cons.prems kq by simp
  next
    case (Suc i')
    have nk: "\<not> contains k nm" using Cons.prems(3) Suc kq by force
    have "first_match nm rest = Some (snd (rest ! i'))"
    proof (rule Cons.IH)
      show "i' < length rest" using Cons.prems(1) Suc by simp
      show "contains (fst (rest ! i')) nm" using Cons.prems(2) Suc by simp
      show "\<forall>j<i'. \<not> contains (fst (rest ! j)) nm"
      proof (intro allI impI)
        fix j assume "j < i'"
        then have "Suc j < i" using Suc by simp
        then have "\<not> contains (fst ((kq # rest) ! Suc j)) nm" using Cons.prems(3) by blast
        then show "\<not> contains (fst (rest ! j)) nm" by simp
      qed
    qed
    then show ?thesis using nk kq Suc by simp
  qed
qed

lemma first_match_none:
  "(\<forall>kq \<in> set tbl. \<not> contains (fst kq) nm) \<Longrightarrow> first_match nm tbl = None"
  by (induction tbl) auto

lemma contains_mid: "contains t (a @ t @ b)"
  unfolding contains_iff by blast

lemma generic_questions_contain:
  "q \<in> set (generic_questions t) \<Longrightarrow> contains t q"
  unfolding generic_questions_def
  by (auto simp only: list.set insert_iff empty_iff contains_mid)

lemma fallback_lengths: "\<forall>kq \<in> set fallback_questions. length (snd kq) = 4"
  by (simp add: fallback_questions_def)

section \<open>The static fallback\<close>

text \<open>
  C4. Without a credential, and when the remote step raises, the questions are the static
  fallback: the list of the first table key that occurs in the lowercased technology name
  (four questions each), and, when no key occurs, the four generic questions, each of which
  contains the technology name. \<open>JavaScript\<close> gives the four JavaScript questions and
  \<open>Rust\<close> the four generic ones.
\<close>

theorem fallback_when_no_credential:
  "(\<not> truthy (api_key gen) \<or> remote_questions loads outcome = None \<longrightarrow>
      fst (generate_questions_for_tech gen loads outcome technology level)
        = QList (map JStr (get_fallback_questions technology)))
   \<and> remote_questions loads Api_raises = None
   \<and> (\<forall>i<length fallback_questions.
         contains (fst (fallback_questions ! i)) (lower technology) \<and>
         (\<forall>j<i. \<not> contains (fst (fallback_questions ! j)) (lower technology)) \<longrightarrow>
         get_fallback_questions technology = snd (fallback_questions ! i) \<and>
         length (snd (fallback_questions ! i)) = 4)
   \<and> ((\<forall>kq \<in> set fallback_questions. \<not> contains (fst kq) (lower technology)) \<longrightarrow>
         get_fallback_questions technology = generic_questions technology \<and>
         length (generic_questions technology) = 4 \<and>
         (\<forall>q \<in> set (generic_questions technology). contains technology q))
   \<and> get_fallback_questions ''JavaScript'' =
         [''Explain the event loop in JavaScript.'',
          ''What are the differences between let, const, and var?'',
          ''How does prototypal inheritance work in JavaScript?'',
          ''What are promises and how do they work?'']
   \<and> get_fallback_questions ''Rust'' =
         [''What experience do you have with Rust?'',
          ''Describe a challenging project you built using Rust.'',
          ''What are the best practices for working with Rust?'',
          ''How would you troubleshoot performance issues in Rust?'']"
proof (intro conjI)
  show "\<not> truthy (api_key gen) \<or> remote_questions loads outcome = None \<longrightarrow>
      fst (generate_questions_for_tech gen loads outcome technology level)
        = QList (map JStr (get_fallback_questions technology))"
    by (auto simp: generate_questions_for_tech_def)
  show "remote_questions loads Api_raises = None"
    by (simp add: remote_questions_def)
  show "\<forall>i<length fallback_questions.
         contains (fst (fallback_questions ! i)) (lower technology) \<and>
         (\<forall>j<i. \<not> contains (fst (fallback_questions ! j)) (lower technology)) \<longrightarrow>
         get_fallback_questions technology = snd (fallback_questions ! i) \<and>
         length (snd (fallback_questions ! i)) = 4"
  proof (intro allI impI, elim conjE)
    fix i
    assume i: "i < length fallback_questions"
      and c: "contains (fst (fallback_questions ! i)) (lower technology)"
      and n: "\<forall>j<i. \<not> contains (fst (fallback_questions ! j)) (lower technology)"
    have "first_match (lower technology) fallback_questions = Some (snd (fallback_questions ! i))"
      using i c n by (rule first_match_first)
    moreover have "length (snd (fallback_questions ! i)) = 4"
      using fallback_lengths i by (meson nth_mem)
    ultimately show "get_fallback_questions technology = snd (fallback_questions ! i) \<and>
         length (snd (fallback_questions ! i)) = 4"
      by (simp add: get_fallback_questions_def)
  qed
  show "(\<forall>kq \<in> set fallback_questions. \<not> contains (fst kq) (lower technology)) \<longrightarrow>
         get_fallback_questions technology = generic_questions technology \<and>
         length (generic_questions technology) = 4 \<and>
         (\<forall>q \<in> set (generic_questions technology). contains technology q)"
  proof (intro impI conjI)
    assume "\<forall>kq \<in> set fallback_questions. \<not> contains (fst kq) (lower technology)"
    then have "first_match (lower technology) fallback_questions = None"
      by (rule first_match_none)
    then show "get_fallback_questions technology = generic_questions technology"
      by (simp add: get_fallback_questions_def)
  next
    show "length (generic_questions technology) = 4"
      by (simp add: generic_questions_def)
  next
    show "\<forall>q \<in> set (generic_questions technology). contains technology q"
      using generic_questions_contain by blast
  qed
  show "get_fallback_questions ''JavaScript'' =
         [''Explain the event loop in JavaScript.'',
          ''What are the differences between let, const, and var?'',
          ''How does prototypal inheritance work in JavaScript?'',
          ''What are promises and how do they work?'']"
    by (simp add: get_fallback_questions_def fallback_questions_def lower_def lower_char_def
        char_of_eq_iff)
  show "get_fallback_questions ''Rust'' =
         [''What experience do you have with Rust?'',
          ''Describe a challenging project you built using Rust.'',
          ''What are the best practices for working with Rust?'',
          ''How would you troubleshoot performance issues in Rust?'']"
    by (simp add: get_fallback_questions_def fallback_questions_def lower_def lower_char_def
        char_of_eq_iff generic_questions_def)
qed

theorem fallback_when_no_credential_witness:
  "fst (generate_questions_for_tech \<lparr>api_key = []\<rparr> loads_empty_array Api_raises ''NodeJS and React'' 5)
     = QList (map JStr (get_fallback_questions ''NodeJS and React''))
   \<and> get_fallback_questions ''NodeJS and React'' = snd (fallback_questions ! 2)
   \<and> get_fallback_questions ''Go'' = generic_questions ''Go''"
proof -
  have k: "\<not> truthy (api_key \<lparr>api_key = []\<rparr>)" by (simp add: truthy_def)
  note t = fallback_when_no_credential
      [of "\<lparr>api_key = []\<rparr>" loads_empty_array Api_raises "''NodeJS and React''" 5]
  note g = fallback_when_no_credential
      [of "\<lparr>api_key = []\<rparr>" loads_empty_array Api_raises "''Go''" 5]
  have a: "fst (generate_questions_for_tech \<lparr>api_key = []\<rparr> loads_empty_array Api_raises ''NodeJS and React'' 5)
     = QList (map JStr (get_fallback_questions ''NodeJS and React''))"
    using t k by blast
  have len: "(2::nat) < length fallback_questions" by (simp add: fallback_questions_def)
  have c2: "contains (fst (fallback_questions ! 2)) (lower ''NodeJS and React'')"
    by (simp add: fallback_questions_def lower_def lower_char_def char_of_eq_iff)
  have n2: "\<forall>j<2. \<not> contains (fst (fallback_questions ! j)) (lower ''NodeJS and React'')"
  proof (intro allI impI)
    fix j :: nat assume "j < 2"
    then have "j = 0 \<or> j = 1" by arith
    then show "\<not> contains (fst (fallback_questions ! j)) (lower ''NodeJS and React'')"
      by (auto simp: fallback_questions_def lower_def lower_char_def char_of_eq_iff)
  qed
  have b: "get_fallback_questions ''NodeJS and React'' = snd (fallback_questions ! 2)"
    using t len c2 n2 by blast
  have none: "\<forall>kq \<in> set fallback_questions. \<not> contains (fst kq) (lower ''Go'')"
    by (simp add: fallback_questions_def lower_def lower_char_def char_of_eq_iff)
  have c: "get_fallback_questions ''Go'' = generic_questions ''Go''"
    using g none by blast
  show ?thesis using a b c by blast
qed

section \<open>The decision procedure for regular expressions is right\<close>

inductive_simps matches_Nothing: "matches Nothing s"
inductive_simps matches_Empty_string: "matches Empty_string s"
inductive_simps matches_Char_class: "matches (Char_class ranges) s"
inductive_simps matches_Seq: "matches (Seq r q) s"
inductive_simps matches_Alt: "matches (Alt r q) s"

lemma matches_nil_nullable: "matches r s \<Longrightarrow> s = [] \<Longrightarrow> nullable r"
  by (induction rule: matches.induct) auto

lemma nullable_matches_nil: "nullable r \<Longrightarrow> matches r []"
proof (induction r)
  case (Seq r q)
  then have "matches (Seq r q) ([] @ [])" by (intro m_seq) auto
  then show ?case by simp
qed (auto intro: matches.intros)

lemma nullable_iff: "nullable r \<longleftrightarrow> matches r []"
  using matches_nil_nullable nullable_matches_nil by blast

lemma star_unfold_cons:
  "matches R w \<Longrightarrow> R = Star r \<Longrightarrow> w = c # s \<Longrightarrow>
   \<exists>xs ys. s = xs @ ys \<and> matches r (c # xs) \<and> matches (Star r) ys"
proof (induction arbitrary: s rule: matches.induct)
  case (m_star_step r' xs ys)
  show ?case
  proof (cases xs)
    case Nil
    then show ?thesis using m_star_step by simp
  next
    case (Cons x xs')
    then have "s = xs' @ ys" "matches r (c # xs')" "matches (Star r) ys"
      using m_star_step.prems m_star_step.hyps by auto
    then show ?thesis by blast
  qed
qed auto

lemma matches_Star_cons:
  "matches (Star r) (c # s) \<longleftrightarrow>
   (\<exists>xs ys. s = xs @ ys \<and> matches r (c # xs) \<and> matches (Star r) ys)"
proof
  assume "matches (Star r) (c # s)"
  then show "\<exists>xs ys. s = xs @ ys \<and> matches r (c # xs) \<and> matches (Star r) ys"
    using star_unfold_cons by blast
next
  assume "\<exists>xs ys. s = xs @ ys \<and> matches r (c # xs) \<and> matches (Star r) ys"
  then obtain xs ys where "s = xs @ ys" "matches r (c # xs)" "matches (Star r) ys" by blast
  then show "matches (Star r) (c # s)"
    using m_star_step [of r "c # xs" ys] by simp
qed

lemma deriv_iff: "matches (deriv c r) s \<longleftrightarrow> matches r (c # s)"
proof (induction r arbitrary: s)
  case Nothing
  show ?case by (simp add: matches_Nothing)
next
  case Empty_string
  show ?case by (simp add: matches_Nothing matches_Empty_string)
next
  case (Char_class ranges)
  show ?case by (auto simp: matches_Nothing matches_Empty_string matches_Char_class)
next
  case (Seq r q)
  have whole: "matches (Seq r q) (c # s) \<longleftrightarrow>
      (matches r [] \<and> matches q (c # s)) \<or>
      (\<exists>xs ys. s = xs @ ys \<and> matches r (c # xs) \<and> matches q ys)"
    unfolding matches_Seq [of r q "c # s"] Cons_eq_append_conv by blast
  have left: "matches (Seq (deriv c r) q) s \<longleftrightarrow>
      (\<exists>xs ys. s = xs @ ys \<and> matches r (c # xs) \<and> matches q ys)"
    unfolding matches_Seq [of "deriv c r" q s] Seq.IH(1) by blast
  show ?case
  proof (cases "nullable r")
    case True
    then have "matches r []" by (simp add: nullable_iff)
    moreover have "matches (deriv c (Seq r q)) s \<longleftrightarrow>
        matches (Seq (deriv c r) q) s \<or> matches (deriv c q) s"
      using True by (simp add: matches_Alt)
    ultimately show ?thesis
      unfolding whole left Seq.IH(2) by blast
  next
    case False
    then have "\<not> matches r []" by (simp add: nullable_iff)
    moreover have "matches (deriv c (Seq r q)) s \<longleftrightarrow> matches (Seq (deriv c r) q) s"
      using False by simp
    ultimately show ?thesis
      unfolding whole left by blast
  qed
next
  case (Alt r q)
  then show ?case by (simp add: matches_Alt)
next
  case (Star r)
  have "matches (deriv c (Star r)) s \<longleftrightarrow>
      (\<exists>xs ys. s = xs @ ys \<and> matches (deriv c r) xs \<and> matches (Star r) ys)"
    unfolding deriv.simps matches_Seq [of "deriv c r" "Star r" s] by blast
  then show ?case
    unfolding Star.IH matches_Star_cons [of r c s] by blast
qed

lemma accepts_iff: "accepts r s \<longleftrightarrow> matches r s"
  by (induction s arbitrary: r) (simp_all add: nullable_iff deriv_iff)

lemma re_match_anchored_iff: "re_match_anchored body s \<longleftrightarrow> matches_anchored body s"
proof -
  have "(s \<noteq> [] \<and> last s = CHR 0x0A \<and> matches body (butlast s)) \<longleftrightarrow>
        (\<exists>t. s = t @ [CHR 0x0A] \<and> matches body t)"
  proof
    assume a: "s \<noteq> [] \<and> last s = CHR 0x0A \<and> matches body (butlast s)"
    then have "s = butlast s @ [CHR 0x0A]" using append_butlast_last_id [of s] by simp
    then show "\<exists>t. s = t @ [CHR 0x0A] \<and> matches body t" using a by blast
  next
    assume "\<exists>t. s = t @ [CHR 0x0A] \<and> matches body t"
    then show "s \<noteq> [] \<and> last s = CHR 0x0A \<and> matches body (butlast s)" by auto
  qed
  then show ?thesis
    by (simp add: re_match_anchored_def matches_anchored_def accepts_iff)
qed

lemmas email_eval = validate_email_def re_match_anchored_def EMAIL_PATTERN_def EMAIL_LOCAL_def
  EMAIL_DOMAIN_def EMAIL_TLD_def one_or_more_def two_or_more_def literal_def in_class_def

lemma email_example_accepted: "validate_email ''a@b.co''"
  by (simp add: email_eval)
lemma email_example_no_at: "\<not> validate_email ''not-an-email''"
  by (simp add: email_eval)
lemma email_example_no_tld: "\<not> validate_email ''a@b''"
  by (simp add: email_eval)
lemma email_example_empty: "\<not> validate_email ''''"
  by (simp add: email_eval)

section \<open>Splitting and trimming\<close>

lemma split_on_nonempty: "split_on sep s \<noteq> []"
  by (induction s) (auto split: list.splits)

lemma join_cons_head: "join sep ((c # seg) # segs) = c # join sep (seg # segs)"
  by (cases segs) simp_all

lemma join_split_on: "join sep (split_on sep s) = s"
proof (induction s)
  case Nil
  show ?case by simp
next
  case (Cons c cs)
  obtain seg segs where sp: "split_on sep cs = seg # segs"
    using split_on_nonempty [of sep cs] by (cases "split_on sep cs") auto
  show ?case
  proof (cases "c = sep")
    case True
    then show ?thesis using Cons.IH sp by simp
  next
    case False
    then have "join sep (split_on sep (c # cs)) = c # join sep (seg # segs)"
      using sp by (simp add: join_cons_head)
    then show ?thesis using Cons.IH sp by simp
  qed
qed

lemma split_on_no_sep: "seg \<in> set (split_on sep s) \<Longrightarrow> sep \<notin> set seg"
proof (induction s arbitrary: seg)
  case Nil
  then show ?case by simp
next
  case (Cons c cs)
  obtain h t where sp: "split_on sep cs = h # t"
    using split_on_nonempty [of sep cs] by (cases "split_on sep cs") auto
  show ?case
  proof (cases "c = sep")
    case True
    then show ?thesis using Cons by auto
  next
    case False
    then have "seg = c # h \<or> seg \<in> set t" using Cons.prems sp by simp
    moreover have "sep \<notin> set h" using Cons.IH sp by simp
    moreover have "seg \<in> set t \<Longrightarrow> sep \<notin> set seg" using Cons.IH sp by simp
    ultimately show ?thesis using False by auto
  qed
qed

lemma lstrip_decomp: "\<exists>l. s = l @ lstrip s \<and> blank l"
proof -
  have "s = takeWhile py_isspace s @ lstrip s" by (simp add: lstrip_def)
  moreover have "blank (takeWhile py_isspace s)"
    unfolding blank_def by (meson set_takeWhileD)
  ultimately show ?thesis by blast
qed

lemma rstrip_decomp: "\<exists>r. s = rstrip s @ r \<and> blank r"
proof -
  have "rev (takeWhile py_isspace (rev s) @ dropWhile py_isspace (rev s)) = s"
    by (simp only: takeWhile_dropWhile_id rev_rev_ident)
  then have "s = rstrip s @ rev (takeWhile py_isspace (rev s))"
    by (simp only: rev_append rstrip_def)
  moreover have "blank (rev (takeWhile py_isspace (rev s)))"
    unfolding blank_def by (metis set_rev set_takeWhileD)
  ultimately show ?thesis by blast
qed

lemma strip_decomp: "\<exists>l r. s = l @ strip s @ r \<and> blank l \<and> blank r"
proof -
  obtain l where l: "s = l @ lstrip s" "blank l" using lstrip_decomp by blast
  obtain r where r: "lstrip s = rstrip (lstrip s) @ r" "blank r" using rstrip_decomp by blast
  have "s = l @ strip s @ r" using l(1) r(1) by (simp add: strip_def)
  then show ?thesis using l(2) r(2) by blast
qed

lemma lstrip_hd: "lstrip s \<noteq> [] \<Longrightarrow> \<not> py_isspace (hd (lstrip s))"
  unfolding lstrip_def by (rule hd_dropWhile)

lemma rstrip_last: "rstrip s \<noteq> [] \<Longrightarrow> \<not> py_isspace (last (rstrip s))"
proof -
  assume ne: "rstrip s \<noteq> []"
  then have d: "dropWhile py_isspace (rev s) \<noteq> []" by (simp add: rstrip_def)
  then have "\<not> py_isspace (hd (dropWhile py_isspace (rev s)))" by (rule hd_dropWhile)
  moreover have "last (rstrip s) = hd (dropWhile py_isspace (rev s))"
    using d by (simp add: rstrip_def last_rev)
  ultimately show ?thesis by simp
qed

lemma strip_ends:
  "strip s \<noteq> [] \<Longrightarrow> \<not> py_isspace (hd (strip s)) \<and> \<not> py_isspace (last (strip s))"
proof -
  assume ne: "strip s \<noteq> []"
  obtain r where r: "lstrip s = strip s @ r" using rstrip_decomp [of "lstrip s"]
    by (auto simp: strip_def)
  then have "hd (lstrip s) = hd (strip s)" "lstrip s \<noteq> []" using ne by auto
  then have "\<not> py_isspace (hd (strip s))" using lstrip_hd [of s] by simp
  moreover have "\<not> py_isspace (last (strip s))"
    using ne rstrip_last [of "lstrip s"] by (simp add: strip_def)
  ultimately show ?thesis by simp
qed

lemma comprehension_filter_map:
  "[f x. x \<leftarrow> xs, f x \<noteq> []] = filter (\<lambda>y. y \<noteq> []) (map f xs)"
  by (induction xs) simp_all

lemma parse_tech_stack_spec: "parse_tech_stack raw = tech_stack_spec raw"
  unfolding parse_tech_stack_def tech_stack_spec_def truthy_def
  by (rule comprehension_filter_map)

lemmas strip_eval = strip_def lstrip_def rstrip_def py_isspace_def truthy_def

lemma parse_tech_stack_example: "parse_tech_stack ''Python, JavaScript,  , React'' = [''Python'', ''JavaScript'', ''React'']"
  by (simp add: parse_tech_stack_def strip_eval)

section \<open>Intake\<close>

lemma validate_form_false_iff:
  "fst (validate_form n e p y d l t) = False \<longleftrightarrow>
     (n = [] \<or> e = [] \<or> p = [] \<or> l = [] \<or> t = [] \<or> d = [] \<or>
      \<not> matches_anchored EMAIL_PATTERN e)"
  by (simp add: validate_form_def truthy_def validate_email_def re_match_anchored_iff)

lemma collect_rejected:
  assumes "\<not> (info_submitted w \<and>
     fst (validate_form (full_name (info_form w)) (email (info_form w))
       (phone_number (info_form w)) (years_experience (info_form w))
       (desired_positions (info_form w)) (current_location (info_form w))
       (tech_stack (info_form w))))"
  shows "after (collect_candidate_data w s) = s"
  using assms
  by (auto simp: collect_candidate_data_def collect_basic_info_def Let_def split: prod.splits)

lemma collect_accepted:
  assumes "info_submitted w" and
    "fst (validate_form (full_name (info_form w)) (email (info_form w))
       (phone_number (info_form w)) (years_experience (info_form w))
       (desired_positions (info_form w)) (current_location (info_form w))
       (tech_stack (info_form w)))"
  shows "after (collect_candidate_data w s) =
     add_to_history ''system'' ''Candidate completed basic information form'' (now w)
       (save_candidate_data (info_form w) s\<lparr>current_stage := Technical_assessment\<rparr>)"
  using assms
  by (auto simp: collect_candidate_data_def collect_basic_info_def Let_def split: prod.splits)

text \<open>
  C3 (as amended). Intake validation returns false exactly when one of full name, email, phone
  number, location or the raw tech stack is the empty string, or no position is selected, or
  the email does not match the pattern; a field of whitespace only is not rejected.
  \<open>a@b.co\<close> matches and \<open>not-an-email\<close>, \<open>a@b\<close> and the empty string do not. Unless the form
  is submitted and valid, the pass leaves the session state as it was; when it is, the
  candidate data is the submitted form.
\<close>

theorem intake_validation:
  "(fst (validate_form n e p y d l t) = False \<longleftrightarrow>
     (n = [] \<or> e = [] \<or> p = [] \<or> l = [] \<or> t = [] \<or> d = [] \<or>
      \<not> matches_anchored EMAIL_PATTERN e))
   \<and> matches_anchored EMAIL_PATTERN ''a@b.co''
   \<and> \<not> matches_anchored EMAIL_PATTERN ''not-an-email''
   \<and> \<not> matches_anchored EMAIL_PATTERN ''a@b''
   \<and> \<not> matches_anchored EMAIL_PATTERN ''''
   \<and> (\<not> (info_submitted w \<and>
          fst (validate_form (full_name (info_form w)) (email (info_form w))
            (phone_number (info_form w)) (years_experience (info_form w))
            (desired_positions (info_form w)) (current_location (info_form w))
            (tech_stack (info_form w))))
        \<longrightarrow> after (collect_candidate_data w s) = s)
   \<and> (info_submitted w \<and>
          fst (validate_form (full_name (info_form w)) (email (info_form w))
            (phone_number (info_form w)) (years_experience (info_form w))
            (desired_positions (info_form w)) (current_location (info_form w))
            (tech_stack (info_form w)))
        \<longrightarrow> candidate_data (after (collect_candidate_data w s)) =
              \<lparr>profile = Some (info_form w), tech_responses = None\<rparr>)"
proof (intro conjI)
  show "fst (validate_form n e p y d l t) = False \<longleftrightarrow>
     (n = [] \<or> e = [] \<or> p = [] \<or> l = [] \<or> t = [] \<or> d = [] \<or>
      \<not> matches_anchored EMAIL_PATTERN e)"
    by (rule validate_form_false_iff)
  show "matches_anchored EMAIL_PATTERN ''a@b.co''"
    unfolding re_match_anchored_iff [symmetric] using email_example_accepted by (simp add: validate_email_def)
  show "\<not> matches_anchored EMAIL_PATTERN ''not-an-email''"
    unfolding re_match_anchored_iff [symmetric] using email_example_no_at by (simp add: validate_email_def)
  show "\<not> matches_anchored EMAIL_PATTERN ''a@b''"
    unfolding re_match_anchored_iff [symmetric] using email_example_no_tld by (simp add: validate_email_def)
  show "\<not> matches_anchored EMAIL_PATTERN ''''"
    unfolding re_match_anchored_iff [symmetric] using email_example_empty by (simp add: validate_email_def)
  show "\<not> (info_submitted w \<and>
          fst (validate_form (full_name (info_form w)) (email (info_form w))
            (phone_number (info_form w)) (years_experience (info_form w))
            (desired_positions (info_form w)) (current_location (info_form w))
            (tech_stack (info_form w))))
        \<longrightarrow> after (collect_candidate_data w s) = s"
    using collect_rejected by blast
  show "info_submitted w \<and>
          fst (validate_form (full_name (info_form w)) (email (info_form w))
            (phone_number (info_form w)) (years_experience (info_form w))
            (desired_positions (info_form w)) (current_location (info_form w))
            (tech_stack (info_form w)))
        \<longrightarrow> candidate_data (after (collect_candidate_data w s)) =
              \<lparr>profile = Some (info_form w), tech_responses = None\<rparr>"
    by (auto simp: collect_accepted save_candidate_data_def add_to_history_def)
qed

theorem intake_validation_witness:
  "fst (validate_form ''Ada'' ''a@b'' ''1'' 2 [''QA Engineer''] ''X''
       ''Python, JavaScript,  , React'') = False
   \<and> after (collect_candidate_data
        (idle\<lparr>info_submitted := True, info_form := sample_form\<lparr>email := ''a@b''\<rparr>\<rparr>)
        initial_state) = initial_state
   \<and> candidate_data (after (collect_candidate_data
        (idle\<lparr>info_submitted := True, info_form := sample_form\<rparr>) initial_state)) =
      \<lparr>profile = Some sample_form, tech_responses = None\<rparr>"
proof -
  let ?bad = "idle\<lparr>info_submitted := True, info_form := sample_form\<lparr>email := ''a@b''\<rparr>\<rparr>"
  let ?good = "idle\<lparr>info_submitted := True, info_form := sample_form\<rparr>"
  note t1 = intake_validation
    [of "''Ada''" "''a@b''" "''1''" 2 "[''QA Engineer'']" "''X''"
      "''Python, JavaScript,  , React''" ?bad initial_state]
  note t2 = intake_validation
    [of "''Ada''" "''a@b''" "''1''" 2 "[''QA Engineer'']" "''X''"
      "''Python, JavaScript,  , React''" ?good initial_state]
  have a: "fst (validate_form ''Ada'' ''a@b'' ''1'' 2 [''QA Engineer''] ''X''
       ''Python, JavaScript,  , React'') = False"
    using t1 by blast
  have "\<not> fst (validate_form (full_name (info_form ?bad)) (email (info_form ?bad))
            (phone_number (info_form ?bad)) (years_experience (info_form ?bad))
            (desired_positions (info_form ?bad)) (current_location (info_form ?bad))
            (tech_stack (info_form ?bad)))"
    using a by (simp add: idle_def sample_form_def)
  then have b: "after (collect_candidate_data ?bad initial_state) = initial_state"
    using t1 by blast
  have "info_submitted ?good \<and>
        fst (validate_form (full_name (info_form ?good)) (email (info_form ?good))
            (phone_number (info_form ?good)) (years_experience (info_form ?good))
            (desired_positions (info_form ?good)) (current_location (info_form ?good))
            (tech_stack (info_form ?good)))"
    by (simp add: idle_def sample_form_def validate_form_def truthy_def email_eval)
  then have c: "candidate_data (after (collect_candidate_data ?good initial_state)) =
      \<lparr>profile = Some (info_form ?good), tech_responses = None\<rparr>"
    using t2 by blast
  show ?thesis using a b c by (simp add: idle_def)
qed

text \<open>
  A form whose full name is three spaces has a blank field, and validation accepts it.
\<close>

theorem whitespace_name_accepted:
  "intake_rejected_spec (sample_form\<lparr>full_name := ''   ''\<rparr>)
   \<and> fst (validate_form ''   '' ''a@b.co'' ''1'' 2 [''QA Engineer''] ''X''
           ''Python, JavaScript,  , React'') = True"
  by (simp add: intake_rejected_spec_def blank_def py_isspace_def sample_form_def
      validate_form_def truthy_def email_eval)

section \<open>The tech stack\<close>

text \<open>
  C7. After a valid intake submission the tech stack is the raw string split on commas, every
  segment trimmed, the empty segments dropped, in order. Splitting loses nothing (joining the
  segments by commas gives the raw string back, and no segment holds a comma); trimming removes
  just a blank prefix and a blank suffix and leaves nothing blank at either end.
\<close>

theorem tech_stack_derivation:
  "(info_submitted w \<and>
      fst (validate_form (full_name (info_form w)) (email (info_form w))
        (phone_number (info_form w)) (years_experience (info_form w))
        (desired_positions (info_form w)) (current_location (info_form w))
        (tech_stack (info_form w)))
    \<longrightarrow> tech_stack_list (after (collect_candidate_data w s)) =
          tech_stack_spec (tech_stack (info_form w)))
   \<and> parse_tech_stack raw = tech_stack_spec raw
   \<and> join CHR '','' (split_on CHR '','' raw) = raw
   \<and> (\<forall>seg \<in> set (split_on CHR '','' raw). CHR '','' \<notin> set seg)
   \<and> (\<exists>l r. seg = l @ strip seg @ r \<and> blank l \<and> blank r)
   \<and> (strip seg \<noteq> [] \<longrightarrow> \<not> py_isspace (hd (strip seg)) \<and> \<not> py_isspace (last (strip seg)))
   \<and> tech_stack_spec ''Python, JavaScript,  , React'' = [''Python'', ''JavaScript'', ''React'']"
proof (intro conjI)
  show "info_submitted w \<and>
      fst (validate_form (full_name (info_form w)) (email (info_form w))
        (phone_number (info_form w)) (years_experience (info_form w))
        (desired_positions (info_form w)) (current_location (info_form w))
        (tech_stack (info_form w)))
    \<longrightarrow> tech_stack_list (after (collect_candidate_data w s)) =
          tech_stack_spec (tech_stack (info_form w))"
    by (auto simp: collect_accepted save_candidate_data_def add_to_history_def
        parse_tech_stack_spec)
  show "parse_tech_stack raw = tech_stack_spec raw" by (rule parse_tech_stack_spec)
  show "join CHR '','' (split_on CHR '','' raw) = raw" by (rule join_split_on)
  show "\<forall>seg \<in> set (split_on CHR '','' raw). CHR '','' \<notin> set seg"
    using split_on_no_sep by blast
  show "\<exists>l r. seg = l @ strip seg @ r \<and> blank l \<and> blank r" by (rule strip_decomp)
  show "strip seg \<noteq> [] \<longrightarrow> \<not> py_isspace (hd (strip seg)) \<and> \<not> py_isspace (last (strip seg))"
    using strip_ends by blast
  show "tech_stack_spec ''Python, JavaScript,  , React'' = [''Python'', ''JavaScript'', ''React'']"
    using parse_tech_stack_example by (simp only: parse_tech_stack_spec)
qed

theorem tech_stack_derivation_witness:
  "tech_stack_list (after (collect_candidate_data
      (idle\<lparr>info_submitted := True, info_form := sample_form\<rparr>) initial_state)) =
     [''Python'', ''JavaScript'', ''React'']
   \<and> strip ''  React '' = ''React''"
proof -
  let ?good = "idle\<lparr>info_submitted := True, info_form := sample_form\<rparr>"
  note t = tech_stack_derivation [of ?good initial_state "''Python''" "''  React ''"]
  have "info_submitted ?good \<and>
        fst (validate_form (full_name (info_form ?good)) (email (info_form ?good))
            (phone_number (info_form ?good)) (years_experience (info_form ?good))
            (desired_positions (info_form ?good)) (current_location (info_form ?good))
            (tech_stack (info_form ?good)))"
    by (simp add: idle_def sample_form_def validate_form_def truthy_def email_eval)
  then have "tech_stack_list (after (collect_candidate_data ?good initial_state)) =
          tech_stack_spec (tech_stack (info_form ?good))"
    using t by blast
  moreover have "tech_stack (info_form ?good) = ''Python, JavaScript,  , React''"
    by (simp add: idle_def sample_form_def)
  moreover have "tech_stack_spec ''Python, JavaScript,  , React'' =
      [''Python'', ''JavaScript'', ''React'']"
    using t by blast
  moreover have "strip ''  React '' = ''React''" by (simp add: strip_eval)
  ultimately show ?thesis by simp
qed

section \<open>One pass, stage by stage\<close>

lemma saved_count_simps:
  "saved_count [] = 0"
  "saved_count (Answers_saved t # evs) = Suc (saved_count evs)"
  "saved_count (Generated t # evs) = saved_count evs"
  "saved_count (evs @ evs') = saved_count evs + saved_count evs'"
  by (simp_all add: saved_count_def)

lemma generated_count_simps:
  "generated_count t [] = 0"
  "generated_count t (Answers_saved u # evs) = generated_count t evs"
  "generated_count t (Generated u # evs) = (if u = t then Suc (generated_count t evs) else generated_count t evs)"
  "generated_count t (evs @ evs') = generated_count t evs + generated_count t evs'"
  by (auto simp: generated_count_def)

text \<open>The exit check touches the conversation history only.\<close>

lemma check_exit_history_only:
  "\<exists>h. fst (snd (check_exit_command w s)) = s\<lparr>conversation_history := h\<rparr>"
proof (cases "chat_input w")
  case None
  then have "fst (snd (check_exit_command w s)) = s\<lparr>conversation_history := conversation_history s\<rparr>"
    by (simp add: check_exit_command_def)
  then show ?thesis by blast
next
  case (Some m)
  show ?thesis
  proof (cases "truthy m")
    case True
    then have "fst (snd (check_exit_command w s)) =
        s\<lparr>conversation_history := conversation_history s @
             [\<lparr>role = ''user'', message = m, timestamp = now w\<rparr>]\<rparr>"
      using Some by (simp add: check_exit_command_def add_to_history_def Let_def)
    then show ?thesis by blast
  next
    case False
    then have "fst (snd (check_exit_command w s)) = s\<lparr>conversation_history := conversation_history s\<rparr>"
      using Some by (simp add: check_exit_command_def)
    then show ?thesis by blast
  qed
qed

lemma run_exit:
  "fst (check_exit_command w s) \<Longrightarrow>
   after (run loads w s) = fst (snd (check_exit_command w s)) \<and>
   events (run loads w s) = [] \<and> \<not> rerun (run loads w s) \<and>
   shown (run loads w s) = St_title # snd (snd (check_exit_command w s))"
  by (cases "check_exit_command w s") (simp add: run_def Let_def)

lemma run_no_exit:
  "\<not> fst (check_exit_command w s) \<Longrightarrow>
   after (run loads w s) = after (dispatch loads w (fst (snd (check_exit_command w s)))) \<and>
   events (run loads w s) = events (dispatch loads w (fst (snd (check_exit_command w s)))) \<and>
   rerun (run loads w s) = rerun (dispatch loads w (fst (snd (check_exit_command w s)))) \<and>
   shown (run loads w s) = St_title # snd (snd (check_exit_command w s)) @
      shown (dispatch loads w (fst (snd (check_exit_command w s))))"
  by (cases "check_exit_command w s") (simp add: run_def Let_def)

subsection \<open>The assessment handler\<close>

lemma ensure_questions_stored:
  assumes "tech_questions s t = Some q"
  shows "ensure_questions gen loads w t s = (s, q, [], [])"
  using assms by (simp add: ensure_questions_def)

lemma ensure_questions_fresh:
  assumes "tech_questions s t = None"
  shows "\<exists>qs out. ensure_questions gen loads w t s =
           (s\<lparr>tech_questions := (tech_questions s)(t \<mapsto> qs)\<rparr>, qs, out, [Generated t]) \<and>
         (qs, out) = generate_questions_for_tech gen loads (api_outcome w) t
            (case profile (candidate_data s) of Some f \<Rightarrow> years_experience f | None \<Rightarrow> 0)"
  using assms by (simp add: ensure_questions_def Let_def split: prod.splits)

lemma ensure_questions_cases:
  obtains (stored) q where "tech_questions s t = Some q"
      "ensure_questions gen loads w t s = (s, q, [], [])"
  | (fresh) qs out where "tech_questions s t = None"
      "ensure_questions gen loads w t s =
         (s\<lparr>tech_questions := (tech_questions s)(t \<mapsto> qs)\<rparr>, qs, out, [Generated t])"
      "(qs, out) = generate_questions_for_tech gen loads (api_outcome w) t
            (case profile (candidate_data s) of Some f \<Rightarrow> years_experience f | None \<Rightarrow> 0)"
proof (cases "tech_questions s t")
  case None
  then show ?thesis using ensure_questions_fresh [of s t gen loads w] fresh by blast
next
  case (Some q)
  then show ?thesis using ensure_questions_stored stored by blast
qed

lemma conduct_empty_stack:
  "tech_stack_list s = [] \<Longrightarrow>
   conduct_technical_assessment gen loads w s =
     \<lparr>after = s, shown = [St_error (Text ''No technologies specified for assessment.'')],
      events = [], rerun = False\<rparr>"
  by (simp add: conduct_technical_assessment_def)

lemma conduct_exhausted:
  "tech_stack_list s \<noteq> [] \<Longrightarrow> length (tech_stack_list s) \<le> current_tech_index s \<Longrightarrow>
   conduct_technical_assessment gen loads w s =
     \<lparr>after = s\<lparr>current_stage := Completion\<rparr>, shown = [], events = [], rerun = True\<rparr>"
  by (simp add: conduct_technical_assessment_def)

lemma conduct_asking:
  assumes "current_tech_index s < length (tech_stack_list s)"
    and "ensure_questions gen loads w (tech_stack_list s ! current_tech_index s) s = (s1, qs, out, evs)"
  shows "conduct_technical_assessment gen loads w s =
     (let current_tech = tech_stack_list s ! current_tech_index s;
          head = out @ [St_header (Assessment_header current_tech),
                        St_info (Assessment_info current_tech)];
          responses = map (answer_areas w) [0..<q_len qs]
      in if answers_submitted w then
           (if list_all truthy responses
            then \<lparr>after = save_responses current_tech qs responses s1, shown = head,
                  events = evs @ [Answers_saved current_tech], rerun = True\<rparr>
            else \<lparr>after = s1,
                  shown = head @
                    [St_error (Text ''Please answer all questions before submitting.'')],
                  events = evs, rerun = False\<rparr>)
         else \<lparr>after = s1, shown = head, events = evs, rerun = False\<rparr>)"
proof -
  have "tech_stack_list s \<noteq> []" using assms(1) by auto
  moreover have "\<not> length (tech_stack_list s) \<le> current_tech_index s" using assms(1) by simp
  ultimately show ?thesis
    using assms(2) by (simp add: conduct_technical_assessment_def Let_def)
qed

text \<open>
  What the handler does while technologies remain: the questions \<open>qs\<close> are the stored ones or
  are generated now (\<open>gens\<close> says which), and then the answers are saved or they are not.
\<close>

lemma conduct_asking_cases:
  assumes "current_tech_index s < length (tech_stack_list s)"
  obtains qs gens out where
    "(gens = [] \<and> tech_questions s (tech_stack_list s ! current_tech_index s) = Some qs) \<or>
     (gens = [Generated (tech_stack_list s ! current_tech_index s)] \<and>
      tech_questions s (tech_stack_list s ! current_tech_index s) = None)"
    "ensure_questions gen loads w (tech_stack_list s ! current_tech_index s) s =
       (s\<lparr>tech_questions :=
            (tech_questions s)(tech_stack_list s ! current_tech_index s \<mapsto> qs)\<rparr>, qs, out, gens)"
    "(answers_submitted w \<and> list_all truthy (map (answer_areas w) [0..<q_len qs]) \<and>
      after (conduct_technical_assessment gen loads w s) =
        save_responses (tech_stack_list s ! current_tech_index s) qs
          (map (answer_areas w) [0..<q_len qs])
          (s\<lparr>tech_questions :=
               (tech_questions s)(tech_stack_list s ! current_tech_index s \<mapsto> qs)\<rparr>) \<and>
      events (conduct_technical_assessment gen loads w s) =
        gens @ [Answers_saved (tech_stack_list s ! current_tech_index s)] \<and>
      rerun (conduct_technical_assessment gen loads w s)) \<or>
     (\<not> (answers_submitted w \<and> list_all truthy (map (answer_areas w) [0..<q_len qs])) \<and>
      after (conduct_technical_assessment gen loads w s) =
        s\<lparr>tech_questions :=
            (tech_questions s)(tech_stack_list s ! current_tech_index s \<mapsto> qs)\<rparr> \<and>
      events (conduct_technical_assessment gen loads w s) = gens \<and>
      \<not> rerun (conduct_technical_assessment gen loads w s))"
proof -
  let ?t = "tech_stack_list s ! current_tech_index s"
  show thesis
  proof (cases rule: ensure_questions_cases [of s ?t gen loads w])
    case (stored q)
    have same: "s\<lparr>tech_questions := (tech_questions s)(?t \<mapsto> q)\<rparr> = s"
      using stored(1) by (simp add: map_upd_triv)
    have e: "ensure_questions gen loads w ?t s =
        (s\<lparr>tech_questions := (tech_questions s)(?t \<mapsto> q)\<rparr>, q, [], [])"
      using stored(2) same by simp
    show ?thesis
    proof (rule that [of "[]" q "[]"])
      show "([] = [] \<and> tech_questions s ?t = Some q) \<or>
            ([] = [Generated ?t] \<and> tech_questions s ?t = None)"
        using stored(1) by simp
      show "ensure_questions gen loads w ?t s =
        (s\<lparr>tech_questions := (tech_questions s)(?t \<mapsto> q)\<rparr>, q, [], [])" by (rule e)
      show "(answers_submitted w \<and> list_all truthy (map (answer_areas w) [0..<q_len q]) \<and>
        after (conduct_technical_assessment gen loads w s) =
          save_responses ?t q (map (answer_areas w) [0..<q_len q])
            (s\<lparr>tech_questions := (tech_questions s)(?t \<mapsto> q)\<rparr>) \<and>
        events (conduct_technical_assessment gen loads w s) = [] @ [Answers_saved ?t] \<and>
        rerun (conduct_technical_assessment gen loads w s)) \<or>
       (\<not> (answers_submitted w \<and> list_all truthy (map (answer_areas w) [0..<q_len q])) \<and>
        after (conduct_technical_assessment gen loads w s) =
          s\<lparr>tech_questions := (tech_questions s)(?t \<mapsto> q)\<rparr> \<and>
        events (conduct_technical_assessment gen loads w s) = [] \<and>
        \<not> rerun (conduct_technical_assessment gen loads w s))"
        unfolding conduct_asking [OF assms e] by (simp add: Let_def)
    qed
  next
    case (fresh qs out)
    show ?thesis
    proof (rule that [of "[Generated ?t]" qs out])
      show "([Generated ?t] = [] \<and> tech_questions s ?t = Some qs) \<or>
            ([Generated ?t] = [Generated ?t] \<and> tech_questions s ?t = None)"
        using fresh(1) by simp
      show "ensure_questions gen loads w ?t s =
        (s\<lparr>tech_questions := (tech_questions s)(?t \<mapsto> qs)\<rparr>, qs, out, [Generated ?t])"
        by (rule fresh(2))
      show "(answers_submitted w \<and> list_all truthy (map (answer_areas w) [0..<q_len qs]) \<and>
        after (conduct_technical_assessment gen loads w s) =
          save_responses ?t qs (map (answer_areas w) [0..<q_len qs])
            (s\<lparr>tech_questions := (tech_questions s)(?t \<mapsto> qs)\<rparr>) \<and>
        events (conduct_technical_assessment gen loads w s) =
          [Generated ?t] @ [Answers_saved ?t] \<and>
        rerun (conduct_technical_assessment gen loads w s)) \<or>
       (\<not> (answers_submitted w \<and> list_all truthy (map (answer_areas w) [0..<q_len qs])) \<and>
        after (conduct_technical_assessment gen loads w s) =
          s\<lparr>tech_questions := (tech_questions s)(?t \<mapsto> qs)\<rparr> \<and>
        events (conduct_technical_assessment gen loads w s) = [Generated ?t] \<and>
        \<not> rerun (conduct_technical_assessment gen loads w s))"
        unfolding conduct_asking [OF assms fresh(2)] by (simp add: Let_def)
    qed
  qed
qed

lemma conduct_stack:
  "tech_stack_list (after (conduct_technical_assessment gen loads w s)) = tech_stack_list s"
proof (cases "current_tech_index s < length (tech_stack_list s)")
  case True
  then show ?thesis
    by (rule conduct_asking_cases [of s gen loads w])
      (use True in \<open>auto simp: save_responses_def Let_def\<close>)
next
  case False
  then show ?thesis
    by (cases "tech_stack_list s = []") (simp_all add: conduct_empty_stack conduct_exhausted)
qed

lemma conduct_history:
  "conversation_history (after (conduct_technical_assessment gen loads w s)) =
     conversation_history s"
proof (cases "current_tech_index s < length (tech_stack_list s)")
  case True
  then show ?thesis
    by (rule conduct_asking_cases [of s gen loads w])
      (use True in \<open>auto simp: save_responses_def Let_def\<close>)
next
  case False
  then show ?thesis
    by (cases "tech_stack_list s = []") (simp_all add: conduct_empty_stack conduct_exhausted)
qed

lemma conduct_stage:
  "current_stage (after (conduct_technical_assessment gen loads w s)) =
     (if tech_stack_list s \<noteq> [] \<and> length (tech_stack_list s) \<le> current_tech_index s
      then Completion else current_stage s)"
proof (cases "current_tech_index s < length (tech_stack_list s)")
  case True
  then show ?thesis
    by (rule conduct_asking_cases [of s gen loads w])
      (use True in \<open>auto simp: save_responses_def Let_def\<close>)
next
  case False
  then show ?thesis
    by (cases "tech_stack_list s = []") (simp_all add: conduct_empty_stack conduct_exhausted)
qed

lemma conduct_index:
  "current_tech_index (after (conduct_technical_assessment gen loads w s)) =
     current_tech_index s + saved_count (events (conduct_technical_assessment gen loads w s))"
proof (cases "current_tech_index s < length (tech_stack_list s)")
  case True
  then show ?thesis
    by (rule conduct_asking_cases [of s gen loads w])
      (auto simp: save_responses_def Let_def saved_count_simps)
next
  case False
  then show ?thesis
    by (cases "tech_stack_list s = []")
      (simp_all add: conduct_empty_stack conduct_exhausted saved_count_simps)
qed

lemma conduct_saved:
  "saved_count (events (conduct_technical_assessment gen loads w s)) \<le> 1 \<and>
   (saved_count (events (conduct_technical_assessment gen loads w s)) = 1 \<longrightarrow>
      current_tech_index s < length (tech_stack_list s))"
proof (cases "current_tech_index s < length (tech_stack_list s)")
  case True
  then show ?thesis
    by (rule conduct_asking_cases [of s gen loads w])
      (use True in \<open>auto simp: saved_count_simps\<close>)
next
  case False
  then show ?thesis
    by (cases "tech_stack_list s = []")
      (simp_all add: conduct_empty_stack conduct_exhausted saved_count_simps)
qed

lemma conduct_questions_kept:
  "tech_questions s u = Some q \<Longrightarrow>
   tech_questions (after (conduct_technical_assessment gen loads w s)) u = Some q"
proof (cases "current_tech_index s < length (tech_stack_list s)")
  case True
  assume "tech_questions s u = Some q"
  with True show ?thesis
    by (rule_tac conduct_asking_cases [of s gen loads w]) (auto simp: save_responses_def Let_def)
next
  case False
  assume "tech_questions s u = Some q"
  with False show ?thesis
    by (cases "tech_stack_list s = []") (simp_all add: conduct_empty_stack conduct_exhausted)
qed

lemma conduct_generated:
  "generated_count u (events (conduct_technical_assessment gen loads w s)) =
     (if tech_questions s u = None \<and>
         tech_questions (after (conduct_technical_assessment gen loads w s)) u \<noteq> None
      then 1 else 0)"
proof (cases "current_tech_index s < length (tech_stack_list s)")
  case True
  then show ?thesis
    by (rule conduct_asking_cases [of s gen loads w])
      (auto simp: save_responses_def Let_def generated_count_simps split: if_splits)
next
  case False
  then show ?thesis
    by (cases "tech_stack_list s = []")
      (auto simp: conduct_empty_stack conduct_exhausted generated_count_simps)
qed

subsection \<open>The other handlers\<close>

lemma show_greeting_effect:
  "after (show_greeting w s) =
     s\<lparr>current_stage := (if begin_button w then Data_collection else current_stage s)\<rparr> \<and>
   events (show_greeting w s) = []"
  by (simp add: show_greeting_def)

lemma collect_candidate_data_effect:
  "events (collect_candidate_data w s) = [] \<and>
   current_tech_index (after (collect_candidate_data w s)) = current_tech_index s \<and>
   tech_questions (after (collect_candidate_data w s)) = tech_questions s \<and>
   (current_stage (after (collect_candidate_data w s)) = current_stage s \<or>
    current_stage (after (collect_candidate_data w s)) = Technical_assessment) \<and>
   (\<exists>extra. conversation_history (after (collect_candidate_data w s)) =
      conversation_history s @ extra)"
  by (auto simp: collect_candidate_data_def collect_basic_info_def save_candidate_data_def
      add_to_history_def Let_def split: prod.splits)

lemma show_completion_effect:
  "\<not> new_session_button w \<Longrightarrow>
   after (show_completion w s) = s \<and> events (show_completion w s) = []"
  by (simp add: show_completion_def Let_def)

subsection \<open>The dispatch on the stage\<close>

lemma dispatch_index:
  assumes "\<not> (current_stage s = Completion \<and> new_session_button w)"
  shows "current_tech_index (after (dispatch loads w s)) =
     current_tech_index s + saved_count (events (dispatch loads w s))"
  using assms
  by (cases "current_stage s")
    (simp_all add: dispatch_def show_greeting_effect collect_candidate_data_effect
      show_completion_effect conduct_index saved_count_simps)

lemma dispatch_saved:
  "saved_count (events (dispatch loads w s)) \<le> 1 \<and>
   (saved_count (events (dispatch loads w s)) = 1 \<longrightarrow>
      current_stage s = Technical_assessment \<and>
      current_tech_index s < length (tech_stack_list s))"
proof (cases "current_stage s")
  case Technical_assessment
  then show ?thesis using conduct_saved by (simp add: dispatch_def)
next
  case Completion
  then show ?thesis by (simp add: dispatch_def show_completion_def Let_def saved_count_simps)
qed (simp_all add: dispatch_def show_greeting_effect collect_candidate_data_effect
      saved_count_simps)

lemma dispatch_stage:
  assumes "\<not> (current_stage s = Completion \<and> new_session_button w)"
  shows "(case current_stage s of
            Greeting \<Rightarrow> current_stage (after (dispatch loads w s)) \<in> {Greeting, Data_collection}
          | Data_collection \<Rightarrow>
              current_stage (after (dispatch loads w s)) \<in> {Data_collection, Technical_assessment}
          | Technical_assessment \<Rightarrow>
              current_stage (after (dispatch loads w s)) =
                (if tech_stack_list s \<noteq> [] \<and> length (tech_stack_list s) \<le> current_tech_index s
                 then Completion else Technical_assessment)
          | Completion \<Rightarrow> current_stage (after (dispatch loads w s)) = Completion)"
proof (cases "current_stage s")
  case Greeting
  then show ?thesis by (simp add: dispatch_def show_greeting_effect)
next
  case Data_collection
  then show ?thesis using collect_candidate_data_effect [of w s] by (auto simp: dispatch_def)
next
  case Technical_assessment
  then show ?thesis by (simp add: dispatch_def conduct_stage)
next
  case Completion
  then show ?thesis using assms by (simp add: dispatch_def show_completion_effect)
qed

lemma dispatch_stack:
  assumes "current_stage s \<noteq> Data_collection"
    and "\<not> (current_stage s = Completion \<and> new_session_button w)"
  shows "tech_stack_list (after (dispatch loads w s)) = tech_stack_list s"
  using assms
  by (cases "current_stage s")
    (simp_all add: dispatch_def show_greeting_effect show_completion_effect conduct_stack)

lemma dispatch_questions_kept:
  assumes "\<not> (current_stage s = Completion \<and> new_session_button w)"
    and "tech_questions s u = Some q"
  shows "tech_questions (after (dispatch loads w s)) u = Some q"
  using assms
  by (cases "current_stage s")
    (simp_all add: dispatch_def show_greeting_effect show_completion_effect
      collect_candidate_data_effect conduct_questions_kept)

lemma dispatch_generated:
  assumes "\<not> (current_stage s = Completion \<and> new_session_button w)"
  shows "generated_count u (events (dispatch loads w s)) =
     (if tech_questions s u = None \<and> tech_questions (after (dispatch loads w s)) u \<noteq> None
      then 1 else 0)"
proof (cases "current_stage s")
  case Technical_assessment
  then show ?thesis using conduct_generated by (simp add: dispatch_def)
next
  case Completion
  then show ?thesis using assms
    by (auto simp: dispatch_def show_completion_effect generated_count_simps)
next
  case Greeting
  then show ?thesis by (auto simp: dispatch_def show_greeting_effect generated_count_simps)
next
  case Data_collection
  then show ?thesis
    by (auto simp: dispatch_def collect_candidate_data_effect generated_count_simps)
qed

lemma dispatch_history:
  assumes "\<not> (current_stage s = Completion \<and> new_session_button w)"
  shows "\<exists>extra. conversation_history (after (dispatch loads w s)) =
     conversation_history s @ extra"
proof (cases "current_stage s")
  case Technical_assessment
  then show ?thesis by (simp add: dispatch_def conduct_history)
next
  case Completion
  then show ?thesis using assms by (simp add: dispatch_def show_completion_effect)
next
  case Greeting
  then show ?thesis by (simp add: dispatch_def show_greeting_effect)
next
  case Data_collection
  then show ?thesis using collect_candidate_data_effect [of w s] by (simp add: dispatch_def)
qed

subsection \<open>One run of the script\<close>

lemma run_cases:
  obtains (exit) h where "fst (check_exit_command w s)"
      "after (run loads w s) = s\<lparr>conversation_history := h\<rparr>"
      "events (run loads w s) = []"
  | (go_on) h where "\<not> fst (check_exit_command w s)"
      "after (run loads w s) = after (dispatch loads w (s\<lparr>conversation_history := h\<rparr>))"
      "events (run loads w s) = events (dispatch loads w (s\<lparr>conversation_history := h\<rparr>))"
proof -
  obtain h where h: "fst (snd (check_exit_command w s)) = s\<lparr>conversation_history := h\<rparr>"
    using check_exit_history_only by blast
  show thesis
  proof (cases "fst (check_exit_command w s)")
    case True
    then show ?thesis using run_exit [of w s loads] h exit by simp
  next
    case False
    then show ?thesis using run_no_exit [of w s loads] h go_on by simp
  qed
qed

lemma run_index:
  assumes "\<not> (current_stage s = Completion \<and> new_session_button w)"
  shows "current_tech_index (after (run loads w s)) =
     current_tech_index s + saved_count (events (run loads w s))"
proof (cases rule: run_cases [of w s loads])
  case (exit h)
  then show ?thesis by (simp add: saved_count_simps)
next
  case (go_on h)
  then show ?thesis
    using assms dispatch_index [of "s\<lparr>conversation_history := h\<rparr>" w loads] by simp
qed

lemma run_saved:
  "saved_count (events (run loads w s)) \<le> 1 \<and>
   (saved_count (events (run loads w s)) = 1 \<longrightarrow>
      current_stage s = Technical_assessment \<and>
      current_tech_index s < length (tech_stack_list s))"
proof (cases rule: run_cases [of w s loads])
  case (exit h)
  then show ?thesis by (simp add: saved_count_simps)
next
  case (go_on h)
  then show ?thesis
    using dispatch_saved [of loads w "s\<lparr>conversation_history := h\<rparr>"] by simp
qed

lemma run_stage:
  assumes "\<not> (current_stage s = Completion \<and> new_session_button w)"
  shows "(case current_stage s of
            Greeting \<Rightarrow> current_stage (after (run loads w s)) \<in> {Greeting, Data_collection}
          | Data_collection \<Rightarrow>
              current_stage (after (run loads w s)) \<in> {Data_collection, Technical_assessment}
          | Technical_assessment \<Rightarrow>
              current_stage (after (run loads w s)) =
                (if \<not> fst (check_exit_command w s) \<and> tech_stack_list s \<noteq> [] \<and>
                    length (tech_stack_list s) \<le> current_tech_index s
                 then Completion else Technical_assessment)
          | Completion \<Rightarrow> current_stage (after (run loads w s)) = Completion)"
proof (cases rule: run_cases [of w s loads])
  case (exit h)
  then show ?thesis by (simp split: stage.splits)
next
  case (go_on h)
  then show ?thesis
    using assms dispatch_stage [of "s\<lparr>conversation_history := h\<rparr>" w loads]
    by (cases "current_stage s") simp_all
qed

lemma run_stack:
  assumes "current_stage s \<noteq> Data_collection"
    and "\<not> (current_stage s = Completion \<and> new_session_button w)"
  shows "tech_stack_list (after (run loads w s)) = tech_stack_list s"
proof (cases rule: run_cases [of w s loads])
  case (exit h)
  then show ?thesis by simp
next
  case (go_on h)
  then show ?thesis
    using assms dispatch_stack [of "s\<lparr>conversation_history := h\<rparr>" w loads] by simp
qed

lemma run_questions_kept:
  assumes "\<not> (current_stage s = Completion \<and> new_session_button w)"
    and "tech_questions s u = Some q"
  shows "tech_questions (after (run loads w s)) u = Some q"
proof (cases rule: run_cases [of w s loads])
  case (exit h)
  then show ?thesis using assms by simp
next
  case (go_on h)
  then show ?thesis
    using assms dispatch_questions_kept [of "s\<lparr>conversation_history := h\<rparr>" w u q loads] by simp
qed

lemma run_generated:
  assumes "\<not> (current_stage s = Completion \<and> new_session_button w)"
  shows "generated_count u (events (run loads w s)) =
     (if tech_questions s u = None \<and> tech_questions (after (run loads w s)) u \<noteq> None
      then 1 else 0)"
proof (cases rule: run_cases [of w s loads])
  case (exit h)
  then show ?thesis by (auto simp: generated_count_simps)
next
  case (go_on h)
  then show ?thesis
    using assms dispatch_generated [of "s\<lparr>conversation_history := h\<rparr>" w u loads] by simp
qed

section \<open>Sessions\<close>

lemma saved_zero_outside_assessment:
  "current_stage s \<noteq> Technical_assessment \<Longrightarrow> saved_count (events (run loads w s)) = 0"
  using run_saved [of loads w s] by (cases "saved_count (events (run loads w s))") auto

lemma cursor_inv_step:
  assumes inv: "cursor_inv s k" and nb: "\<not> new_session_button w"
  shows "cursor_inv (after (run loads w s)) (k + saved_count (events (run loads w s)))"
proof -
  let ?r = "run loads w s"
  have idx: "current_tech_index (after ?r) = k + saved_count (events ?r)"
    using run_index [of s w loads] nb inv by (simp add: cursor_inv_def)
  have st: "(case current_stage s of
            Greeting \<Rightarrow> current_stage (after ?r) \<in> {Greeting, Data_collection}
          | Data_collection \<Rightarrow> current_stage (after ?r) \<in> {Data_collection, Technical_assessment}
          | Technical_assessment \<Rightarrow>
              current_stage (after ?r) =
                (if \<not> fst (check_exit_command w s) \<and> tech_stack_list s \<noteq> [] \<and>
                    length (tech_stack_list s) \<le> current_tech_index s
                 then Completion else Technical_assessment)
          | Completion \<Rightarrow> current_stage (after ?r) = Completion)"
    using run_stage [of s w loads] nb by simp
  show ?thesis
  proof (cases "current_stage s")
    case Greeting
    then have "saved_count (events ?r) = 0" by (simp add: saved_zero_outside_assessment)
    moreover have "k = 0" using inv Greeting by (simp add: cursor_inv_def)
    ultimately show ?thesis using st idx Greeting by (auto simp: cursor_inv_def)
  next
    case Data_collection
    then have "saved_count (events ?r) = 0" by (simp add: saved_zero_outside_assessment)
    moreover have "k = 0" using inv Data_collection by (simp add: cursor_inv_def)
    ultimately show ?thesis using st idx Data_collection by (auto simp: cursor_inv_def)
  next
    case Technical_assessment
    have stack: "tech_stack_list (after ?r) = tech_stack_list s"
      using run_stack [of s w loads] Technical_assessment by simp
    have k: "k \<le> length (tech_stack_list s)" "current_tech_index s = k"
      using inv Technical_assessment by (simp_all add: cursor_inv_def)
    have sv: "saved_count (events ?r) \<le> 1"
      "saved_count (events ?r) = 1 \<longrightarrow> k < length (tech_stack_list s)"
      using run_saved [of loads w s] k by auto
    show ?thesis
    proof (cases "current_stage (after ?r) = Completion")
      case True
      then have full: "tech_stack_list s \<noteq> []" "length (tech_stack_list s) \<le> k"
        using st Technical_assessment k by (auto split: if_splits)
      then have "saved_count (events ?r) = 0" using sv k by (cases "saved_count (events ?r)") auto
      then show ?thesis using True idx stack full k by (simp add: cursor_inv_def)
    next
      case False
      then have "current_stage (after ?r) = Technical_assessment"
        using st Technical_assessment by (auto split: if_splits)
      moreover have "k + saved_count (events ?r) \<le> length (tech_stack_list s)"
        using sv k by (cases "saved_count (events ?r)") auto
      ultimately show ?thesis using idx stack by (simp add: cursor_inv_def)
    qed
  next
    case Completion
    then have "saved_count (events ?r) = 0" by (simp add: saved_zero_outside_assessment)
    moreover have "tech_stack_list (after ?r) = tech_stack_list s"
      using run_stack [of s w loads] Completion nb by simp
    ultimately show ?thesis using st idx Completion inv by (simp add: cursor_inv_def)
  qed
qed

lemma cursor_inv_run_all:
  "cursor_inv s k \<Longrightarrow> no_restart ws \<Longrightarrow>
   cursor_inv (run_all loads ws s) (k + saved_count (events_all loads ws s))"
proof (induction ws arbitrary: s k)
  case Nil
  then show ?case by (simp add: saved_count_simps)
next
  case (Cons w ws)
  have nb: "\<not> new_session_button w" and rest: "no_restart ws"
    using Cons.prems(2) by (simp_all add: no_restart_def)
  have "cursor_inv (after (run loads w s)) (k + saved_count (events (run loads w s)))"
    using Cons.prems(1) nb by (rule cursor_inv_step)
  then have "cursor_inv (run_all loads ws (after (run loads w s)))
      (k + saved_count (events (run loads w s)) +
       saved_count (events_all loads ws (after (run loads w s))))"
    using rest by (rule Cons.IH)
  then show ?case by (simp add: saved_count_simps add.assoc)
qed

lemma assessment_stack_run_all:
  "current_stage s = Technical_assessment \<or> current_stage s = Completion \<Longrightarrow> no_restart ws \<Longrightarrow>
   tech_stack_list (run_all loads ws s) = tech_stack_list s \<and>
   (current_stage (run_all loads ws s) = Technical_assessment \<or>
    current_stage (run_all loads ws s) = Completion)"
proof (induction ws arbitrary: s)
  case Nil
  then show ?case by simp
next
  case (Cons w ws)
  have nb: "\<not> new_session_button w" and rest: "no_restart ws"
    using Cons.prems(2) by (simp_all add: no_restart_def)
  have stack: "tech_stack_list (after (run loads w s)) = tech_stack_list s"
    using run_stack [of s w loads] Cons.prems(1) nb by auto
  have "current_stage (after (run loads w s)) = Technical_assessment \<or>
        current_stage (after (run loads w s)) = Completion"
    using run_stage [of s w loads] Cons.prems(1) nb by (auto split: if_splits)
  then show ?case using Cons.IH [of "after (run loads w s)"] rest stack by simp
qed

lemma questions_kept_run_all:
  "no_restart ws \<Longrightarrow> tech_questions s t = Some q \<Longrightarrow>
   tech_questions (run_all loads ws s) t = Some q"
proof (induction ws arbitrary: s)
  case Nil
  then show ?case by simp
next
  case (Cons w ws)
  have nb: "\<not> new_session_button w" and rest: "no_restart ws"
    using Cons.prems(1) by (simp_all add: no_restart_def)
  have "tech_questions (after (run loads w s)) t = Some q"
    using run_questions_kept [of s w t q loads] nb Cons.prems(2) by simp
  then show ?case using Cons.IH rest by simp
qed

lemma generated_run_all:
  "no_restart ws \<Longrightarrow>
   generated_count t (events_all loads ws s) =
     (if tech_questions s t = None \<and> tech_questions (run_all loads ws s) t \<noteq> None
      then 1 else 0)"
proof (induction ws arbitrary: s)
  case Nil
  then show ?case by (auto simp: generated_count_simps)
next
  case (Cons w ws)
  let ?s' = "after (run loads w s)"
  have nb: "\<not> new_session_button w" and rest: "no_restart ws"
    using Cons.prems by (simp_all add: no_restart_def)
  have one: "generated_count t (events (run loads w s)) =
     (if tech_questions s t = None \<and> tech_questions ?s' t \<noteq> None then 1 else 0)"
    using run_generated [of s w t loads] nb by simp
  have more: "generated_count t (events_all loads ws ?s') =
     (if tech_questions ?s' t = None \<and> tech_questions (run_all loads ws ?s') t \<noteq> None
      then 1 else 0)"
    using Cons.IH rest by simp
  show ?case
  proof (cases "tech_questions ?s' t")
    case None
    then have "tech_questions s t = None"
      using run_questions_kept [of s w t _ loads] nb by (cases "tech_questions s t") auto
    then show ?thesis using None one more by (simp add: generated_count_simps)
  next
    case (Some q)
    then have "tech_questions (run_all loads ws ?s') t = Some q"
      using questions_kept_run_all rest by simp
    then show ?thesis using Some one more by (simp add: generated_count_simps)
  qed
qed

lemma stuck_run_all:
  "tech_stack_list s = [] \<Longrightarrow> current_stage s = Technical_assessment \<Longrightarrow>
   current_stage (run_all loads ws s) = Technical_assessment \<and>
   current_tech_index (run_all loads ws s) = current_tech_index s \<and>
   tech_stack_list (run_all loads ws s) = []"
proof (induction ws arbitrary: s)
  case Nil
  then show ?case by simp
next
  case (Cons w ws)
  let ?s' = "after (run loads w s)"
  have a: "current_stage ?s' = Technical_assessment"
    using run_stage [of s w loads] Cons.prems by simp
  have b: "tech_stack_list ?s' = []"
    using run_stack [of s w loads] Cons.prems by simp
  have "saved_count (events (run loads w s)) = 0"
    using run_saved [of loads w s] Cons.prems
    by (cases "saved_count (events (run loads w s))") auto
  then have c: "current_tech_index ?s' = current_tech_index s"
    using run_index [of s w loads] Cons.prems by simp
  show ?case using Cons.IH [OF b a] c by simp
qed

lemmas world_eval = idle_def answering_def blank_form_def sample_form_def initial_state_def

lemmas handler_eval = run_def check_exit_command_def dispatch_def show_greeting_def
  collect_candidate_data_def collect_basic_info_def conduct_technical_assessment_def
  show_completion_def ensure_questions_def save_responses_def add_to_history_def
  save_candidate_data_def question_generator_init_def generate_questions_for_tech_def
  validate_form_def truthy_def

lemma sample_stack: "parse_tech_stack (tech_stack sample_form) = [''Python'', ''JavaScript'', ''React'']"
  using parse_tech_stack_example by (simp add: sample_form_def)


lemma no_restart_full_session: "no_restart full_session"
  by (simp add: no_restart_def full_session_def world_eval)

lemma full_session_end:
  "current_stage (run_all loads_empty_array full_session initial_state) = Completion \<and>
   tech_stack_list (run_all loads_empty_array full_session initial_state) =
     [''Python'', ''JavaScript'', ''React'']"
  by (simp add: full_session_def world_eval handler_eval email_example_accepted
      sample_stack [unfolded sample_form_def, simplified] Let_def list_all_iff)

text \<open>
  C1. A pass leaves the assessment stage for completion only when the cursor is not below the
  length of the tech stack. Unless the session is restarted, a pass moves the cursor by the
  number of answer sets it saves, which is at most one. In a session without restart that
  starts with the cursor at 0 before completion and ends in completion, the tech stack is not
  empty and the number of saved answer sets, and the cursor, equal its length.
\<close>

theorem completion_after_every_technology:
  "(current_stage s = Technical_assessment \<and> current_stage (after (run loads w s)) = Completion
      \<longrightarrow> \<not> current_tech_index s < length (tech_stack_list s))
   \<and> (\<not> (current_stage s = Completion \<and> new_session_button w) \<longrightarrow>
        current_tech_index (after (run loads w s)) =
          current_tech_index s + saved_count (events (run loads w s)))
   \<and> saved_count (events (run loads w s)) \<le> 1
   \<and> (current_tech_index s0 = 0 \<and> current_stage s0 \<noteq> Completion \<and> no_restart ws \<and>
       current_stage (run_all loads ws s0) = Completion \<longrightarrow>
        1 \<le> length (tech_stack_list (run_all loads ws s0)) \<and>
        saved_count (events_all loads ws s0) = length (tech_stack_list (run_all loads ws s0)) \<and>
        current_tech_index (run_all loads ws s0) = length (tech_stack_list (run_all loads ws s0)))
   \<and> (current_stage s0 = Technical_assessment \<and> no_restart ws \<longrightarrow>
        tech_stack_list (run_all loads ws s0) = tech_stack_list s0)"
proof (intro conjI impI)
  assume a: "current_stage s = Technical_assessment \<and>
             current_stage (after (run loads w s)) = Completion"
  then have "length (tech_stack_list s) \<le> current_tech_index s"
    using run_stage [of s w loads] by (auto split: if_splits)
  then show "\<not> current_tech_index s < length (tech_stack_list s)" by simp
next
  assume "\<not> (current_stage s = Completion \<and> new_session_button w)"
  then show "current_tech_index (after (run loads w s)) =
          current_tech_index s + saved_count (events (run loads w s))"
    by (rule run_index)
next
  show "saved_count (events (run loads w s)) \<le> 1" using run_saved by blast
next
  assume a: "current_tech_index s0 = 0 \<and> current_stage s0 \<noteq> Completion \<and> no_restart ws \<and>
       current_stage (run_all loads ws s0) = Completion"
  then have "cursor_inv s0 0" by (cases "current_stage s0") (simp_all add: cursor_inv_def)
  then have "cursor_inv (run_all loads ws s0) (0 + saved_count (events_all loads ws s0))"
    using a cursor_inv_run_all by blast
  then have fin: "tech_stack_list (run_all loads ws s0) \<noteq> []"
      "saved_count (events_all loads ws s0) = length (tech_stack_list (run_all loads ws s0))"
      "current_tech_index (run_all loads ws s0) = saved_count (events_all loads ws s0)"
    using a by (simp_all add: cursor_inv_def)
  show "1 \<le> length (tech_stack_list (run_all loads ws s0))"
    using fin(1) by (cases "tech_stack_list (run_all loads ws s0)") simp_all
  show "saved_count (events_all loads ws s0) = length (tech_stack_list (run_all loads ws s0))"
    by (rule fin(2))
  show "current_tech_index (run_all loads ws s0) = length (tech_stack_list (run_all loads ws s0))"
    using fin(2) fin(3) by simp
next
  assume "current_stage s0 = Technical_assessment \<and> no_restart ws"
  then show "tech_stack_list (run_all loads ws s0) = tech_stack_list s0"
    using assessment_stack_run_all [of s0 ws loads] by simp
qed

theorem completion_after_every_technology_witness:
  "current_tech_index initial_state = 0 \<and> current_stage initial_state \<noteq> Completion \<and>
   no_restart full_session \<and>
   current_stage (run_all loads_empty_array full_session initial_state) = Completion \<and>
   saved_count (events_all loads_empty_array full_session initial_state) = 3"
proof -
  have h: "current_tech_index initial_state = 0 \<and> current_stage initial_state \<noteq> Completion \<and>
      no_restart full_session \<and>
      current_stage (run_all loads_empty_array full_session initial_state) = Completion"
    using no_restart_full_session full_session_end by (simp add: initial_state_def)
  then have "saved_count (events_all loads_empty_array full_session initial_state) =
      length (tech_stack_list (run_all loads_empty_array full_session initial_state))"
    using completion_after_every_technology
      [of initial_state loads_empty_array idle initial_state full_session]
    by blast
  then have "saved_count (events_all loads_empty_array full_session initial_state) = 3"
    using full_session_end by simp
  then show ?thesis using h by blast
qed

text \<open>
  C5. A technology's stored questions are what a later request returns, with nothing
  generated. In a session without restart stored questions stay as they are, and the number
  of generation events for a technology is one when the session gave it questions and zero
  otherwise.
\<close>

theorem questions_generated_once:
  "(tech_questions s t = Some q \<longrightarrow> ensure_questions gen loads w t s = (s, q, [], []))
   \<and> (no_restart ws \<and> tech_questions s t = Some q \<longrightarrow>
        tech_questions (run_all loads ws s) t = Some q \<and>
        generated_count t (events_all loads ws s) = 0)
   \<and> (no_restart ws \<longrightarrow>
        generated_count t (events_all loads ws s) =
          (if tech_questions s t = None \<and> tech_questions (run_all loads ws s) t \<noteq> None
           then 1 else 0))"
proof (intro conjI impI)
  assume "tech_questions s t = Some q"
  then show "ensure_questions gen loads w t s = (s, q, [], [])"
    by (rule ensure_questions_stored)
next
  assume a: "no_restart ws \<and> tech_questions s t = Some q"
  then show "tech_questions (run_all loads ws s) t = Some q"
    using questions_kept_run_all by blast
  show "generated_count t (events_all loads ws s) = 0"
    using a generated_run_all [of ws t loads s] by simp
next
  assume "no_restart ws"
  then show "generated_count t (events_all loads ws s) =
          (if tech_questions s t = None \<and> tech_questions (run_all loads ws s) t \<noteq> None
           then 1 else 0)"
    by (rule generated_run_all)
qed

theorem questions_generated_once_witness:
  "no_restart full_session \<and>
   tech_questions initial_state ''Python'' = None \<and>
   tech_questions (run_all loads_empty_array full_session initial_state) ''Python'' =
     Some (QList (map JStr (get_fallback_questions ''Python''))) \<and>
   generated_count ''Python'' (events_all loads_empty_array full_session initial_state) = 1"
proof -
  have a: "tech_questions initial_state ''Python'' = None" by (simp add: initial_state_def)
  have b: "tech_questions (run_all loads_empty_array full_session initial_state) ''Python'' =
     Some (QList (map JStr (get_fallback_questions ''Python'')))"
    by (simp add: full_session_def world_eval handler_eval email_example_accepted
      sample_stack [unfolded sample_form_def, simplified] Let_def list_all_iff)
  have "generated_count ''Python'' (events_all loads_empty_array full_session initial_state) =
      (if tech_questions initial_state ''Python'' = None \<and>
          tech_questions (run_all loads_empty_array full_session initial_state) ''Python'' \<noteq> None
       then 1 else 0)"
    using questions_generated_once
      [of initial_state "''Python''" "QList []" "\<lparr>api_key = []\<rparr>" loads_empty_array idle
        full_session]
      no_restart_full_session by blast
  then have "generated_count ''Python'' (events_all loads_empty_array full_session initial_state) = 1"
    using a b by simp
  then show ?thesis using a b no_restart_full_session by blast
qed

text \<open>
  C9. With an empty tech stack the assessment handler shows the error and changes nothing,
  so a run in the assessment stage stays there with the cursor where it was, and shows the
  error unless the message typed is an exit command; this holds after any number of runs,
  whatever is pressed or typed.
\<close>

theorem empty_tech_stack_stuck:
  "tech_stack_list s = [] \<and> current_stage s = Technical_assessment \<longrightarrow>
     conduct_technical_assessment gen loads w s =
       \<lparr>after = s, shown = [St_error (Text ''No technologies specified for assessment.'')],
        events = [], rerun = False\<rparr>
     \<and> current_stage (after (run loads w s)) = Technical_assessment
     \<and> current_tech_index (after (run loads w s)) = current_tech_index s
     \<and> tech_stack_list (after (run loads w s)) = []
     \<and> (\<not> fst (check_exit_command w s) \<longrightarrow>
          St_error (Text ''No technologies specified for assessment.'') \<in> set (shown (run loads w s)))
     \<and> current_stage (run_all loads ws s) = Technical_assessment
     \<and> current_tech_index (run_all loads ws s) = current_tech_index s
     \<and> tech_stack_list (run_all loads ws s) = []"
proof (intro impI)
  assume a: "tech_stack_list s = [] \<and> current_stage s = Technical_assessment"
  have one: "current_stage (run_all loads [w] s) = Technical_assessment \<and>
     current_tech_index (run_all loads [w] s) = current_tech_index s \<and>
     tech_stack_list (run_all loads [w] s) = []"
    using a stuck_run_all [of s loads "[w]"] by blast
  have many: "current_stage (run_all loads ws s) = Technical_assessment \<and>
     current_tech_index (run_all loads ws s) = current_tech_index s \<and>
     tech_stack_list (run_all loads ws s) = []"
    using a stuck_run_all [of s loads ws] by blast
  have err: "\<not> fst (check_exit_command w s) \<longrightarrow>
          St_error (Text ''No technologies specified for assessment.'') \<in> set (shown (run loads w s))"
  proof
    assume ne: "\<not> fst (check_exit_command w s)"
    obtain h where h: "fst (snd (check_exit_command w s)) = s\<lparr>conversation_history := h\<rparr>"
      using check_exit_history_only by blast
    have "dispatch loads w (s\<lparr>conversation_history := h\<rparr>) =
        \<lparr>after = s\<lparr>conversation_history := h\<rparr>,
         shown = [St_error (Text ''No technologies specified for assessment.'')],
         events = [], rerun = False\<rparr>"
      using a by (simp add: dispatch_def conduct_empty_stack)
    then show "St_error (Text ''No technologies specified for assessment.'') \<in> set (shown (run loads w s))"
      using run_no_exit [OF ne, of loads] h by simp
  qed
  show "conduct_technical_assessment gen loads w s =
       \<lparr>after = s, shown = [St_error (Text ''No technologies specified for assessment.'')],
        events = [], rerun = False\<rparr>
     \<and> current_stage (after (run loads w s)) = Technical_assessment
     \<and> current_tech_index (after (run loads w s)) = current_tech_index s
     \<and> tech_stack_list (after (run loads w s)) = []
     \<and> (\<not> fst (check_exit_command w s) \<longrightarrow>
          St_error (Text ''No technologies specified for assessment.'') \<in> set (shown (run loads w s)))
     \<and> current_stage (run_all loads ws s) = Technical_assessment
     \<and> current_tech_index (run_all loads ws s) = current_tech_index s
     \<and> tech_stack_list (run_all loads ws s) = []"
    using a one many err by (simp add: conduct_empty_stack)
qed

lemma comma_session_end:
  "tech_stack_list (run_all loads_empty_array comma_session initial_state) = [] \<and>
   current_stage (run_all loads_empty_array comma_session initial_state) = Technical_assessment \<and>
   current_tech_index (run_all loads_empty_array comma_session initial_state) = 0"
  by (simp add: comma_session_def world_eval handler_eval email_eval parse_tech_stack_def
      strip_def lstrip_def rstrip_def py_isspace_def Let_def)

theorem empty_tech_stack_stuck_witness:
  "tech_stack_list (run_all loads_empty_array comma_session initial_state) = [] \<and>
   current_stage (run_all loads_empty_array comma_session initial_state) = Technical_assessment \<and>
   current_stage (run_all loads_empty_array [answering, idle, answering]
     (run_all loads_empty_array comma_session initial_state)) = Technical_assessment \<and>
   current_tech_index (run_all loads_empty_array [answering, idle, answering]
     (run_all loads_empty_array comma_session initial_state)) = 0 \<and>
   St_error (Text ''No technologies specified for assessment.'') \<in>
     set (shown (run loads_empty_array answering
       (run_all loads_empty_array comma_session initial_state)))"
proof -
  let ?s = "run_all loads_empty_array comma_session initial_state"
  note t = empty_tech_stack_stuck
    [of ?s "\<lparr>api_key = []\<rparr>" loads_empty_array answering "[answering, idle, answering]"]
  have h: "tech_stack_list ?s = [] \<and> current_stage ?s = Technical_assessment"
    using comma_session_end by blast
  have ne: "\<not> fst (check_exit_command answering ?s)"
    by (simp add: check_exit_command_def answering_def idle_def)
  show ?thesis using t h ne comma_session_end by simp
qed

section \<open>Submitting answers\<close>

lemma all_answered_iff:
  "list_all truthy (map f [0..<n]) \<longleftrightarrow> (\<forall>i<n. f i \<noteq> [])"
  by (auto simp: list_all_iff truthy_def)

lemma conduct_submission:
  assumes idx: "current_tech_index s < length (tech_stack_list s)"
    and sub: "answers_submitted w"
    and qs: "tech_questions (after (conduct_technical_assessment gen loads w s))
               (tech_stack_list s ! current_tech_index s) = Some qs"
  shows "((\<forall>i<q_len qs. answer_areas w i \<noteq> []) \<longrightarrow>
            after (conduct_technical_assessment gen loads w s) =
              save_responses (tech_stack_list s ! current_tech_index s) qs
                (map (answer_areas w) [0..<q_len qs])
                (s\<lparr>tech_questions :=
                     (tech_questions s)(tech_stack_list s ! current_tech_index s \<mapsto> qs)\<rparr>)) \<and>
         ((\<exists>i<q_len qs. answer_areas w i = []) \<longrightarrow>
            after (conduct_technical_assessment gen loads w s) =
              s\<lparr>tech_questions :=
                  (tech_questions s)(tech_stack_list s ! current_tech_index s \<mapsto> qs)\<rparr> \<and>
            St_error (Text ''Please answer all questions before submitting.'') \<in>
              set (shown (conduct_technical_assessment gen loads w s)) \<and>
            \<not> rerun (conduct_technical_assessment gen loads w s))"
proof (rule conduct_asking_cases [OF idx, of gen loads w])
  fix qs' gens out
  let ?t = "tech_stack_list s ! current_tech_index s"
  let ?r = "conduct_technical_assessment gen loads w s"
  let ?s1 = "s\<lparr>tech_questions := (tech_questions s)(?t \<mapsto> qs')\<rparr>"
  assume e: "ensure_questions gen loads w ?t s = (?s1, qs', out, gens)"
  assume c: "(answers_submitted w \<and> list_all truthy (map (answer_areas w) [0..<q_len qs']) \<and>
      after ?r = save_responses ?t qs' (map (answer_areas w) [0..<q_len qs']) ?s1 \<and>
      events ?r = gens @ [Answers_saved ?t] \<and> rerun ?r) \<or>
     (\<not> (answers_submitted w \<and> list_all truthy (map (answer_areas w) [0..<q_len qs'])) \<and>
      after ?r = ?s1 \<and> events ?r = gens \<and> \<not> rerun ?r)"
  have "tech_questions (after ?r) ?t = Some qs'"
    using c by (auto simp: save_responses_def Let_def)
  then have same: "qs' = qs" using qs by simp
  have sh: "\<not> list_all truthy (map (answer_areas w) [0..<q_len qs']) \<Longrightarrow>
      St_error (Text ''Please answer all questions before submitting.'') \<in> set (shown ?r)"
    unfolding conduct_asking [OF idx e] using sub by (simp add: Let_def)
  show ?thesis
    using c sub sh unfolding same all_answered_iff by auto
qed

lemma conduct_questions_present:
  assumes "current_tech_index s < length (tech_stack_list s)"
  shows "\<exists>qs. tech_questions (after (conduct_technical_assessment gen loads w s))
               (tech_stack_list s ! current_tech_index s) = Some qs"
  by (rule conduct_asking_cases [OF assms, of gen loads w])
    (auto simp: save_responses_def Let_def)

lemma run_in_assessment:
  assumes "current_stage s = Technical_assessment" and "\<not> fst (check_exit_command w s)"
  obtains h out where
    "run loads w s =
       (conduct_technical_assessment
          (question_generator_init None (secrets_key w) (environ_key w)) loads w
          (s\<lparr>conversation_history := h\<rparr>))
       \<lparr>shown := St_title # out @
          shown (conduct_technical_assessment
            (question_generator_init None (secrets_key w) (environ_key w)) loads w
            (s\<lparr>conversation_history := h\<rparr>))\<rparr>"
proof -
  obtain h where h: "fst (snd (check_exit_command w s)) = s\<lparr>conversation_history := h\<rparr>"
    using check_exit_history_only by blast
  obtain b s1 out where c: "check_exit_command w s = (b, s1, out)"
    by (cases "check_exit_command w s") auto
  have "\<not> b" "s1 = s\<lparr>conversation_history := h\<rparr>" using c h assms(2) by simp_all
  then have "run loads w s =
       (dispatch loads w (s\<lparr>conversation_history := h\<rparr>))
       \<lparr>shown := St_title # out @ shown (dispatch loads w (s\<lparr>conversation_history := h\<rparr>))\<rparr>"
    using c by (simp add: run_def Let_def)
  then show thesis using that assms(1) by (simp add: dispatch_def)
qed

text \<open>
  C2. A run in the assessment stage with technologies left, the answer form submitted and no
  exit command: the current technology has questions afterwards, the stored ones if there were
  any. If every answer is non-empty, the questions and as many answers are recorded under the
  technology's name and the cursor moves by one. If an answer is empty, the cursor, the stage
  and the candidate data are as before and the error is shown.
\<close>

theorem answers_submission:
  "current_stage s = Technical_assessment \<and>
   current_tech_index s < length (tech_stack_list s) \<and>
   answers_submitted w \<and> \<not> fst (check_exit_command w s) \<longrightarrow>
   (let t = tech_stack_list s ! current_tech_index s; r = run loads w s in
     (\<exists>qs. tech_questions (after r) t = Some qs) \<and>
     (\<forall>q. tech_questions s t = Some q \<longrightarrow> tech_questions (after r) t = Some q) \<and>
     (\<forall>qs. tech_questions (after r) t = Some qs \<longrightarrow>
        ((\<forall>i<q_len qs. answer_areas w i \<noteq> []) \<longrightarrow>
            (\<exists>m. tech_responses (candidate_data (after r)) = Some m \<and>
                 m t = Some \<lparr>questions = qs, answers = map (answer_areas w) [0..<q_len qs]\<rparr>) \<and>
            length (map (answer_areas w) [0..<q_len qs]) = q_len qs \<and>
            current_tech_index (after r) = current_tech_index s + 1 \<and>
            current_stage (after r) = Technical_assessment) \<and>
        ((\<exists>i<q_len qs. answer_areas w i = []) \<longrightarrow>
            current_tech_index (after r) = current_tech_index s \<and>
            current_stage (after r) = current_stage s \<and>
            candidate_data (after r) = candidate_data s \<and>
            St_error (Text ''Please answer all questions before submitting.'') \<in> set (shown r) \<and>
            \<not> rerun r)))"
proof (intro impI)
  assume a: "current_stage s = Technical_assessment \<and>
   current_tech_index s < length (tech_stack_list s) \<and>
   answers_submitted w \<and> \<not> fst (check_exit_command w s)"
  let ?t = "tech_stack_list s ! current_tech_index s"
  let ?gen = "question_generator_init None (secrets_key w) (environ_key w)"
  obtain h out where r: "run loads w s =
       (conduct_technical_assessment ?gen loads w (s\<lparr>conversation_history := h\<rparr>))
       \<lparr>shown := St_title # out @
          shown (conduct_technical_assessment ?gen loads w (s\<lparr>conversation_history := h\<rparr>))\<rparr>"
    using run_in_assessment [of s w loads] a by blast
  let ?s1 = "s\<lparr>conversation_history := h\<rparr>"
  let ?c = "conduct_technical_assessment ?gen loads w ?s1"
  have idx: "current_tech_index ?s1 < length (tech_stack_list ?s1)" using a by simp
  have t1: "tech_stack_list ?s1 ! current_tech_index ?s1 = ?t" by simp
  have after: "after (run loads w s) = after ?c" and rr: "rerun (run loads w s) = rerun ?c"
    and sh: "set (shown ?c) \<subseteq> set (shown (run loads w s))"
    using r by auto
  have ex: "\<exists>qs. tech_questions (after (run loads w s)) ?t = Some qs"
    using conduct_questions_present [OF idx, of ?gen loads w] after by simp
  have kept: "\<forall>q. tech_questions s ?t = Some q \<longrightarrow>
      tech_questions (after (run loads w s)) ?t = Some q"
    using conduct_questions_kept [of ?s1 ?t _ ?gen loads w] after by simp
  have main: "\<forall>qs. tech_questions (after (run loads w s)) ?t = Some qs \<longrightarrow>
        ((\<forall>i<q_len qs. answer_areas w i \<noteq> []) \<longrightarrow>
            (\<exists>m. tech_responses (candidate_data (after (run loads w s))) = Some m \<and>
                 m ?t = Some \<lparr>questions = qs, answers = map (answer_areas w) [0..<q_len qs]\<rparr>) \<and>
            length (map (answer_areas w) [0..<q_len qs]) = q_len qs \<and>
            current_tech_index (after (run loads w s)) = current_tech_index s + 1 \<and>
            current_stage (after (run loads w s)) = Technical_assessment) \<and>
        ((\<exists>i<q_len qs. answer_areas w i = []) \<longrightarrow>
            current_tech_index (after (run loads w s)) = current_tech_index s \<and>
            current_stage (after (run loads w s)) = current_stage s \<and>
            candidate_data (after (run loads w s)) = candidate_data s \<and>
            St_error (Text ''Please answer all questions before submitting.'') \<in>
              set (shown (run loads w s)) \<and>
            \<not> rerun (run loads w s))"
  proof (intro allI impI)
    fix qs
    assume q: "tech_questions (after (run loads w s)) ?t = Some qs"
    then have q1: "tech_questions (after ?c) (tech_stack_list ?s1 ! current_tech_index ?s1) = Some qs"
      using after by simp
    have sub: "answers_submitted w" using a by simp
    note cs = conduct_submission [OF idx sub q1]
    show "((\<forall>i<q_len qs. answer_areas w i \<noteq> []) \<longrightarrow>
            (\<exists>m. tech_responses (candidate_data (after (run loads w s))) = Some m \<and>
                 m ?t = Some \<lparr>questions = qs, answers = map (answer_areas w) [0..<q_len qs]\<rparr>) \<and>
            length (map (answer_areas w) [0..<q_len qs]) = q_len qs \<and>
            current_tech_index (after (run loads w s)) = current_tech_index s + 1 \<and>
            current_stage (after (run loads w s)) = Technical_assessment) \<and>
        ((\<exists>i<q_len qs. answer_areas w i = []) \<longrightarrow>
            current_tech_index (after (run loads w s)) = current_tech_index s \<and>
            current_stage (after (run loads w s)) = current_stage s \<and>
            candidate_data (after (run loads w s)) = candidate_data s \<and>
            St_error (Text ''Please answer all questions before submitting.'') \<in>
              set (shown (run loads w s)) \<and>
            \<not> rerun (run loads w s))"
    proof (intro conjI impI)
      assume all: "\<forall>i<q_len qs. answer_areas w i \<noteq> []"
      then have eq: "after (run loads w s) =
          save_responses ?t qs (map (answer_areas w) [0..<q_len qs])
            (?s1\<lparr>tech_questions := (tech_questions ?s1)(?t \<mapsto> qs)\<rparr>)"
        using cs after by simp
      show "\<exists>m. tech_responses (candidate_data (after (run loads w s))) = Some m \<and>
                 m ?t = Some \<lparr>questions = qs, answers = map (answer_areas w) [0..<q_len qs]\<rparr>"
        unfolding eq by (simp add: save_responses_def Let_def)
      show "length (map (answer_areas w) [0..<q_len qs]) = q_len qs" by simp
      show "current_tech_index (after (run loads w s)) = current_tech_index s + 1"
        unfolding eq by (simp add: save_responses_def Let_def)
      show "current_stage (after (run loads w s)) = Technical_assessment"
        unfolding eq using a by (simp add: save_responses_def Let_def)
    next
      assume some: "\<exists>i<q_len qs. answer_areas w i = []"
      then have eq: "after (run loads w s) =
          ?s1\<lparr>tech_questions := (tech_questions ?s1)(?t \<mapsto> qs)\<rparr>"
        and er: "St_error (Text ''Please answer all questions before submitting.'') \<in> set (shown ?c)"
        and nr: "\<not> rerun ?c"
        using cs after by simp_all
      show "current_tech_index (after (run loads w s)) = current_tech_index s"
        unfolding eq by simp
      show "current_stage (after (run loads w s)) = current_stage s"
        unfolding eq by simp
      show "candidate_data (after (run loads w s)) = candidate_data s"
        unfolding eq by simp
      show "St_error (Text ''Please answer all questions before submitting.'') \<in>
              set (shown (run loads w s))"
        using er sh by blast
      show "\<not> rerun (run loads w s)" using nr rr by simp
    qed
  qed
  show "let t = tech_stack_list s ! current_tech_index s; r = run loads w s in
     (\<exists>qs. tech_questions (after r) t = Some qs) \<and>
     (\<forall>q. tech_questions s t = Some q \<longrightarrow> tech_questions (after r) t = Some q) \<and>
     (\<forall>qs. tech_questions (after r) t = Some qs \<longrightarrow>
        ((\<forall>i<q_len qs. answer_areas w i \<noteq> []) \<longrightarrow>
            (\<exists>m. tech_responses (candidate_data (after r)) = Some m \<and>
                 m t = Some \<lparr>questions = qs, answers = map (answer_areas w) [0..<q_len qs]\<rparr>) \<and>
            length (map (answer_areas w) [0..<q_len qs]) = q_len qs \<and>
            current_tech_index (after r) = current_tech_index s + 1 \<and>
            current_stage (after r) = Technical_assessment) \<and>
        ((\<exists>i<q_len qs. answer_areas w i = []) \<longrightarrow>
            current_tech_index (after r) = current_tech_index s \<and>
            current_stage (after r) = current_stage s \<and>
            candidate_data (after r) = candidate_data s \<and>
            St_error (Text ''Please answer all questions before submitting.'') \<in> set (shown r) \<and>
            \<not> rerun r))"
    unfolding Let_def using ex kept main by blast
qed

lemma ready_state_eval:
  "ready_state =
     \<lparr>conversation_history =
        [\<lparr>role = ''system'', message = ''Candidate completed basic information form'',
          timestamp = 0\<rparr>],
      candidate_data = \<lparr>profile = Some sample_form, tech_responses = None\<rparr>,
      current_stage = Technical_assessment,
      tech_questions = Map.empty,
      current_tech_index = 0,
      tech_stack_list = [''Python'', ''JavaScript'', ''React'']\<rparr>"
  unfolding ready_state_def
  by (simp add: world_eval handler_eval email_example_accepted
      sample_stack [unfolded sample_form_def, simplified] Let_def)

lemma python_questions_len: "length (get_fallback_questions ''Python'') = 4"
  by (simp add: get_fallback_questions_def fallback_questions_def lower_def lower_char_def
      char_of_eq_iff)

lemma ready_answering_questions:
  "tech_questions (after (run loads_empty_array answering ready_state)) ''Python'' =
     Some (QList (map JStr (get_fallback_questions ''Python'')))"
  unfolding ready_state_eval
  by (simp add: world_eval handler_eval Let_def list_all_iff)

lemma ready_unanswered_questions:
  "tech_questions (after (run loads_empty_array unanswered ready_state)) ''Python'' =
     Some (QList (map JStr (get_fallback_questions ''Python'')))"
  unfolding ready_state_eval
  by (simp add: unanswered_def world_eval handler_eval Let_def list_all_iff python_questions_len)

theorem answers_submission_witness:
  "current_stage ready_state = Technical_assessment \<and>
   current_tech_index ready_state = 0 \<and>
   tech_stack_list ready_state = [''Python'', ''JavaScript'', ''React''] \<and>
   current_tech_index (after (run loads_empty_array answering ready_state)) = 1 \<and>
   current_tech_index (after (run loads_empty_array unanswered ready_state)) = 0 \<and>
   candidate_data (after (run loads_empty_array unanswered ready_state)) =
     candidate_data ready_state \<and>
   St_error (Text ''Please answer all questions before submitting.'') \<in>
     set (shown (run loads_empty_array unanswered ready_state))"
proof -
  let ?qs = "QList (map JStr (get_fallback_questions ''Python''))"
  have st: "current_stage ready_state = Technical_assessment"
      "current_tech_index ready_state = 0"
      "tech_stack_list ready_state = [''Python'', ''JavaScript'', ''React'']"
    by (simp_all add: ready_state_eval)
  have t: "tech_stack_list ready_state ! current_tech_index ready_state = ''Python''"
    using st by simp
  have len: "q_len ?qs = 4" by (simp add: python_questions_len)
  have h1: "current_stage ready_state = Technical_assessment \<and>
      current_tech_index ready_state < length (tech_stack_list ready_state) \<and>
      answers_submitted answering \<and> \<not> fst (check_exit_command answering ready_state)"
    using st by (simp add: check_exit_command_def answering_def idle_def)
  have h2: "current_stage ready_state = Technical_assessment \<and>
      current_tech_index ready_state < length (tech_stack_list ready_state) \<and>
      answers_submitted unanswered \<and> \<not> fst (check_exit_command unanswered ready_state)"
    using st by (simp add: check_exit_command_def unanswered_def idle_def)
  have all: "\<forall>i<q_len ?qs. answer_areas answering i \<noteq> []"
    by (simp add: answering_def idle_def)
  have some: "\<exists>i<q_len ?qs. answer_areas unanswered i = []"
    unfolding len by (simp add: unanswered_def idle_def) (rule exI [of _ 0], simp)
  have a: "current_tech_index (after (run loads_empty_array answering ready_state)) =
      current_tech_index ready_state + 1"
    using answers_submission [of ready_state answering loads_empty_array] h1
      ready_answering_questions all
    unfolding Let_def t by blast
  have b: "current_tech_index (after (run loads_empty_array unanswered ready_state)) =
        current_tech_index ready_state \<and>
      candidate_data (after (run loads_empty_array unanswered ready_state)) =
        candidate_data ready_state \<and>
      St_error (Text ''Please answer all questions before submitting.'') \<in>
        set (shown (run loads_empty_array unanswered ready_state))"
    using answers_submission [of ready_state unanswered loads_empty_array] h2
      ready_unanswered_questions some
    unfolding Let_def t by blast
  show ?thesis using st a b by simp
qed

section \<open>The exit command\<close>

lemma is_exit_message_iff:
  "is_exit_message m \<longleftrightarrow> (\<exists>k \<in> set EXIT_KEYWORDS. \<exists>a b. lower m = a @ k @ b)"
  by (simp add: is_exit_message_def list_ex_iff contains_iff)

lemma check_exit_on_message:
  assumes "chat_input w = Some m" and "m \<noteq> []"
  shows "check_exit_command w s =
     (is_exit_message m, add_to_history ''user'' m (now w) s,
      if is_exit_message m then [St_info THANK_YOU_MESSAGE] else [St_warning Use_forms_warning])"
  using assms by (simp add: check_exit_command_def truthy_def Let_def)

text \<open>
  C8. A message is an exit command when its lowercased text contains one of the keywords, as
  \<open>I need to EXIT now\<close> does. For every non-empty message the exit check appends it to the
  conversation history. If it is an exit command, the run ends there: the closing message is
  shown, no handler runs and the stage is as before. Otherwise the handler of the stage runs on
  the state with the message appended, and, unless the session is restarted in that run,
  the history afterwards begins with the old history and the message.
\<close>

theorem exit_command:
  "(is_exit_message m \<longleftrightarrow> (\<exists>k \<in> set EXIT_KEYWORDS. \<exists>a b. lower m = a @ k @ b))
   \<and> is_exit_message ''I need to EXIT now''
   \<and> (chat_input w = Some m \<and> m \<noteq> [] \<longrightarrow>
        fst (snd (check_exit_command w s)) = add_to_history ''user'' m (now w) s
        \<and> conversation_history (add_to_history ''user'' m (now w) s) =
            conversation_history s @ [\<lparr>role = ''user'', message = m, timestamp = now w\<rparr>]
        \<and> fst (check_exit_command w s) = is_exit_message m
        \<and> (is_exit_message m \<longrightarrow>
              run loads w s =
                \<lparr>after = add_to_history ''user'' m (now w) s,
                 shown = [St_title, St_info THANK_YOU_MESSAGE], events = [], rerun = False\<rparr>
              \<and> current_stage (after (run loads w s)) = current_stage s)
        \<and> (\<not> is_exit_message m \<longrightarrow>
              after (run loads w s) =
                after (dispatch loads w (add_to_history ''user'' m (now w) s)))
        \<and> (\<not> is_exit_message m \<and> \<not> (current_stage s = Completion \<and> new_session_button w) \<longrightarrow>
              (\<exists>extra. conversation_history (after (run loads w s)) =
                 conversation_history s @
                   \<lparr>role = ''user'', message = m, timestamp = now w\<rparr> # extra)))"
proof (intro conjI impI)
  show "is_exit_message m \<longleftrightarrow> (\<exists>k \<in> set EXIT_KEYWORDS. \<exists>a b. lower m = a @ k @ b)"
    by (rule is_exit_message_iff)
  show "is_exit_message ''I need to EXIT now''"
    by (simp add: is_exit_message_def EXIT_KEYWORDS_def lower_def lower_char_def char_of_eq_iff)
next
  assume a: "chat_input w = Some m \<and> m \<noteq> []"
  then have c: "check_exit_command w s =
     (is_exit_message m, add_to_history ''user'' m (now w) s,
      if is_exit_message m then [St_info THANK_YOU_MESSAGE] else [St_warning Use_forms_warning])"
    using check_exit_on_message by blast
  show "fst (snd (check_exit_command w s)) = add_to_history ''user'' m (now w) s"
    using c by simp
  show "conversation_history (add_to_history ''user'' m (now w) s) =
            conversation_history s @ [\<lparr>role = ''user'', message = m, timestamp = now w\<rparr>]"
    by (simp add: add_to_history_def)
  show "fst (check_exit_command w s) = is_exit_message m" using c by simp
  {
    assume e: "is_exit_message m"
    show "run loads w s =
                \<lparr>after = add_to_history ''user'' m (now w) s,
                 shown = [St_title, St_info THANK_YOU_MESSAGE], events = [], rerun = False\<rparr>"
      using c e by (simp add: run_def)
    then show "current_stage (after (run loads w s)) = current_stage s"
      by (simp add: add_to_history_def)
  }
  {
    assume n: "\<not> is_exit_message m"
    show "after (run loads w s) =
                after (dispatch loads w (add_to_history ''user'' m (now w) s))"
      using c n by (simp add: run_def Let_def)
  }
  {
    assume n: "\<not> is_exit_message m \<and> \<not> (current_stage s = Completion \<and> new_session_button w)"
    let ?s1 = "add_to_history ''user'' m (now w) s"
    have r: "after (run loads w s) = after (dispatch loads w ?s1)"
      using c n by (simp add: run_def Let_def)
    have "\<not> (current_stage ?s1 = Completion \<and> new_session_button w)"
      using n by (simp add: add_to_history_def)
    then obtain extra where
      "conversation_history (after (dispatch loads w ?s1)) = conversation_history ?s1 @ extra"
      using dispatch_history [of ?s1 w loads] by blast
    then have "conversation_history (after (run loads w s)) =
        conversation_history s @ \<lparr>role = ''user'', message = m, timestamp = now w\<rparr> # extra"
      using r by (simp add: add_to_history_def)
    then show "\<exists>extra. conversation_history (after (run loads w s)) =
                 conversation_history s @
                   \<lparr>role = ''user'', message = m, timestamp = now w\<rparr> # extra"
      by blast
  }
qed

theorem exit_command_witness:
  "run loads_empty_array (idle\<lparr>chat_input := Some ''I need to EXIT now''\<rparr>) ready_state =
     \<lparr>after = add_to_history ''user'' ''I need to EXIT now'' 0 ready_state,
      shown = [St_title, St_info THANK_YOU_MESSAGE], events = [], rerun = False\<rparr>
   \<and> current_stage (after (run loads_empty_array
        (idle\<lparr>chat_input := Some ''I need to EXIT now''\<rparr>) ready_state)) = Technical_assessment
   \<and> \<not> is_exit_message ''hello''
   \<and> after (run loads_empty_array (idle\<lparr>chat_input := Some ''hello''\<rparr>) ready_state) =
       after (dispatch loads_empty_array (idle\<lparr>chat_input := Some ''hello''\<rparr>)
         (add_to_history ''user'' ''hello'' 0 ready_state))"
proof -
  let ?w = "idle\<lparr>chat_input := Some ''I need to EXIT now''\<rparr>"
  let ?v = "idle\<lparr>chat_input := Some ''hello''\<rparr>"
  note t = exit_command [of "''I need to EXIT now''" ?w ready_state loads_empty_array]
  note u = exit_command [of "''hello''" ?v ready_state loads_empty_array]
  have hw: "chat_input ?w = Some ''I need to EXIT now'' \<and> ''I need to EXIT now'' \<noteq> []"
    by (simp add: idle_def)
  have hv: "chat_input ?v = Some ''hello'' \<and> ''hello'' \<noteq> []" by (simp add: idle_def)
  have nw: "now ?w = 0" "now ?v = 0" by (simp_all add: idle_def)
  have ex: "is_exit_message ''I need to EXIT now''" using t by blast
  have nex: "\<not> is_exit_message ''hello''"
    by (simp add: is_exit_message_def EXIT_KEYWORDS_def lower_def lower_char_def char_of_eq_iff)
  have a: "run loads_empty_array ?w ready_state =
     \<lparr>after = add_to_history ''user'' ''I need to EXIT now'' (now ?w) ready_state,
      shown = [St_title, St_info THANK_YOU_MESSAGE], events = [], rerun = False\<rparr>
     \<and> current_stage (after (run loads_empty_array ?w ready_state)) = current_stage ready_state"
    using t hw ex by blast
  have b: "after (run loads_empty_array ?v ready_state) =
       after (dispatch loads_empty_array ?v (add_to_history ''user'' ''hello'' (now ?v) ready_state))"
    using u hv nex by blast
  have st: "current_stage ready_state = Technical_assessment" by (simp add: ready_state_eval)
  show ?thesis using a b nex st unfolding nw by (simp add: add_to_history_def)
qed

section \<open>How many questions\<close>

lemma slice5_len: "slice5 j = Some qs \<Longrightarrow> q_len qs \<le> 5"
  by (cases j) auto

lemma slice5_none_iff:
  "slice5 j = None \<longleftrightarrow> (\<forall>xs. j \<noteq> JArr xs) \<and> (\<forall>s. j \<noteq> JStr s)"
  by (cases j) auto

lemma remote_questions_len: "remote_questions loads outcome = Some qs \<Longrightarrow> q_len qs \<le> 5"
  by (auto simp: remote_questions_def Let_def slice5_len
      split: api_outcome.splits loads_result.splits)

lemma first_match_in_table:
  "first_match nm tbl = Some qs \<Longrightarrow> \<exists>k. (k, qs) \<in> set tbl"
  by (induction tbl) (auto split: if_splits)

lemma fallback_len: "length (get_fallback_questions technology) = 4"
proof (cases "first_match (lower technology) fallback_questions")
  case None
  then show ?thesis by (simp add: get_fallback_questions_def generic_questions_def)
next
  case (Some qs)
  then obtain k where "(k, qs) \<in> set fallback_questions"
    using first_match_in_table by blast
  then have "length qs = 4" using fallback_lengths by force
  then show ?thesis using Some by (simp add: get_fallback_questions_def)
qed

lemma jstr_lines:
  "[JStr (strip q). q \<leftarrow> ls, truthy (strip q)] =
   map JStr (filter (\<lambda>l. l \<noteq> []) (map strip ls))"
  by (induction ls) (simp_all add: truthy_def)

lemma remote_lines_exact:
  assumes "loads (strip content) = JSONDecodeError"
  shows "remote_questions loads (Api_content content) =
     Some (QList (map JStr (take 5 (filter (\<lambda>l. l \<noteq> [])
       (map strip (split_on CHR 0x0A (strip content)))))))"
proof -
  have "remote_questions loads (Api_content content) =
      slice5 (JArr [JStr (strip q). q \<leftarrow> split_on CHR 0x0A (strip content), truthy (strip q)])"
    using assms by (simp add: remote_questions_def Let_def)
  then show ?thesis
    unfolding jstr_lines by (simp add: take_map)
qed

lemma remote_lines:
  assumes "loads (strip content) = JSONDecodeError"
  shows "\<exists>ss. remote_questions loads (Api_content content) = Some (QList (map JStr ss)) \<and>
              length ss \<le> 5 \<and> (\<forall>x \<in> set ss. x \<noteq> [])"
proof -
  define ls where "ls = filter (\<lambda>l. l \<noteq> []) (map strip (split_on CHR 0x0A (strip content)))"
  have r: "remote_questions loads (Api_content content) = Some (QList (map JStr (take 5 ls)))"
    unfolding ls_def using assms by (rule remote_lines_exact)
  have ne: "\<forall>x \<in> set ls. x \<noteq> []" unfolding ls_def by simp
  have "length (take 5 ls) \<le> 5" by simp
  moreover have "\<forall>x \<in> set (take 5 ls). x \<noteq> []" using ne by (meson in_set_takeD)
  ultimately have "remote_questions loads (Api_content content) =
        Some (QList (map JStr (take 5 ls))) \<and>
      length (take 5 ls) \<le> 5 \<and> (\<forall>x \<in> set (take 5 ls). x \<noteq> [])"
    using r by simp
  then show ?thesis by (rule exI [of _ "take 5 ls"])
qed

lemma remote_none_iff:
  "remote_questions loads outcome = None \<longleftrightarrow>
     (outcome = Api_raises \<or>
      (\<exists>c. outcome = Api_content c \<and>
           (loads (strip c) = Loads_raises \<or>
            (\<exists>j. loads (strip c) = Loaded j \<and> (\<forall>xs. j \<noteq> JArr xs) \<and> (\<forall>s. j \<noteq> JStr s)))))"
proof (cases outcome)
  case Api_raises
  then show ?thesis by (simp add: remote_questions_def)
next
  case (Api_content c)
  show ?thesis
  proof (cases "loads (strip c)")
    case (Loaded j)
    then show ?thesis
      using Api_content by (simp add: remote_questions_def Let_def slice5_none_iff)
  next
    case JSONDecodeError
    then show ?thesis
      using Api_content remote_lines_exact [of loads c] by simp
  next
    case Loads_raises
    then show ?thesis using Api_content by (simp add: remote_questions_def Let_def)
  qed
qed

text \<open>
  C6 (as amended). Whatever the technology, the experience level and the reply, the result
  has at most five entries, and nothing makes it non-empty. It is the four fallback question
  strings when there is no credential and when the remote step raises, which it does exactly
  when the call raises, decoding raises something other than a decode error, or the reply
  decodes to a value that is neither an array nor a string. With a credential, a reply that
  decodes to an array gives the first five elements of the array, as they are; one that
  decodes to a string gives the string's first five characters, as a string; and one that is
  not JSON gives the first five of its lines that are not blank, trimmed.
\<close>

theorem question_count_bounds:
  "q_len (fst (generate_questions_for_tech gen loads outcome technology level)) \<le> 5
   \<and> (\<not> truthy (api_key gen) \<or> remote_questions loads outcome = None \<longrightarrow>
        fst (generate_questions_for_tech gen loads outcome technology level) =
          QList (map JStr (get_fallback_questions technology)) \<and>
        length (get_fallback_questions technology) = 4)
   \<and> (truthy (api_key gen) \<and> remote_questions loads outcome = Some qs \<longrightarrow>
        fst (generate_questions_for_tech gen loads outcome technology level) = qs)
   \<and> (loads (strip content) = JSONDecodeError \<longrightarrow>
        (\<exists>ss. remote_questions loads (Api_content content) = Some (QList (map JStr ss)) \<and>
              length ss \<le> 5 \<and> (\<forall>x \<in> set ss. x \<noteq> [])))
   \<and> (remote_questions loads outcome = None \<longleftrightarrow>
        (outcome = Api_raises \<or>
         (\<exists>c. outcome = Api_content c \<and>
              (loads (strip c) = Loads_raises \<or>
               (\<exists>j. loads (strip c) = Loaded j \<and>
                    (\<forall>xs. j \<noteq> JArr xs) \<and> (\<forall>s. j \<noteq> JStr s))))))
   \<and> (truthy (api_key gen) \<and> loads (strip content) = Loaded (JArr xs) \<longrightarrow>
        fst (generate_questions_for_tech gen loads (Api_content content) technology level) =
          QList (take 5 xs))
   \<and> (truthy (api_key gen) \<and> loads (strip content) = Loaded (JStr s) \<longrightarrow>
        fst (generate_questions_for_tech gen loads (Api_content content) technology level) =
          QStr (take 5 s))
   \<and> (truthy (api_key gen) \<and> loads (strip content) = JSONDecodeError \<longrightarrow>
        fst (generate_questions_for_tech gen loads (Api_content content) technology level) =
          QList (map JStr (take 5 (filter (\<lambda>l. l \<noteq> [])
            (map strip (split_on CHR 0x0A (strip content)))))))"
proof (intro conjI impI)
  show "q_len (fst (generate_questions_for_tech gen loads outcome technology level)) \<le> 5"
  proof (cases "remote_questions loads outcome")
    case None
    then show ?thesis by (simp add: generate_questions_for_tech_def fallback_len)
  next
    case (Some qs')
    then show ?thesis
      using remote_questions_len [of loads outcome qs']
      by (simp add: generate_questions_for_tech_def fallback_len)
  qed
next
  assume "\<not> truthy (api_key gen) \<or> remote_questions loads outcome = None"
  then show "fst (generate_questions_for_tech gen loads outcome technology level) =
          QList (map JStr (get_fallback_questions technology))"
    by (auto simp: generate_questions_for_tech_def)
  show "length (get_fallback_questions technology) = 4" by (rule fallback_len)
next
  assume "truthy (api_key gen) \<and> remote_questions loads outcome = Some qs"
  then show "fst (generate_questions_for_tech gen loads outcome technology level) = qs"
    by (simp add: generate_questions_for_tech_def)
next
  assume "loads (strip content) = JSONDecodeError"
  then show "\<exists>ss. remote_questions loads (Api_content content) = Some (QList (map JStr ss)) \<and>
              length ss \<le> 5 \<and> (\<forall>x \<in> set ss. x \<noteq> [])"
    by (rule remote_lines)
next
  show "remote_questions loads outcome = None \<longleftrightarrow>
        (outcome = Api_raises \<or>
         (\<exists>c. outcome = Api_content c \<and>
              (loads (strip c) = Loads_raises \<or>
               (\<exists>j. loads (strip c) = Loaded j \<and>
                    (\<forall>xs. j \<noteq> JArr xs) \<and> (\<forall>s. j \<noteq> JStr s)))))"
    by (rule remote_none_iff)
next
  assume "truthy (api_key gen) \<and> loads (strip content) = Loaded (JArr xs)"
  then show "fst (generate_questions_for_tech gen loads (Api_content content) technology level) =
          QList (take 5 xs)"
    by (simp add: generate_questions_for_tech_def remote_questions_def Let_def)
next
  assume "truthy (api_key gen) \<and> loads (strip content) = Loaded (JStr s)"
  then show "fst (generate_questions_for_tech gen loads (Api_content content) technology level) =
          QStr (take 5 s)"
    by (simp add: generate_questions_for_tech_def remote_questions_def Let_def)
next
  assume a: "truthy (api_key gen) \<and> loads (strip content) = JSONDecodeError"
  then have "remote_questions loads (Api_content content) =
     Some (QList (map JStr (take 5 (filter (\<lambda>l. l \<noteq> [])
       (map strip (split_on CHR 0x0A (strip content)))))))"
    using remote_lines_exact by blast
  then show "fst (generate_questions_for_tech gen loads (Api_content content) technology level) =
          QList (map JStr (take 5 (filter (\<lambda>l. l \<noteq> [])
            (map strip (split_on CHR 0x0A (strip content))))))"
    using a by (simp add: generate_questions_for_tech_def)
qed

lemmas reply_eval = loads_samples_def six_lines_def strip_def lstrip_def rstrip_def
  py_isspace_def truthy_def

theorem question_count_bounds_witness:
  "fst (generate_questions_for_tech \<lparr>api_key = []\<rparr> loads_samples Api_raises ''Rust'' 5) =
     QList (map JStr (get_fallback_questions ''Rust''))
   \<and> length (get_fallback_questions ''Rust'') = 4
   \<and> fst (generate_questions_for_tech \<lparr>api_key = ''sk-test''\<rparr> loads_samples
         (Api_content ''[1, 2, 3, 4, 5, 6]'') ''Rust'' 5) =
       QList [JNum ''1'', JNum ''2'', JNum ''3'', JNum ''4'', JNum ''5'']
   \<and> fst (generate_questions_for_tech \<lparr>api_key = ''sk-test''\<rparr> loads_samples
         (Api_content (CHR 0x22 # ''hello world'' @ [CHR 0x22])) ''Rust'' 5) = QStr ''hello''
   \<and> fst (generate_questions_for_tech \<lparr>api_key = ''sk-test''\<rparr> loads_samples
         (Api_content six_lines) ''Rust'' 5) =
       QList [JStr ''Q1'', JStr ''Q2'', JStr ''Q3'', JStr ''Q4'', JStr ''Q5'']
   \<and> fst (generate_questions_for_tech \<lparr>api_key = ''sk-test''\<rparr> loads_samples
         (Api_content ''{}'') ''Rust'' 5) = QList (map JStr (get_fallback_questions ''Rust''))"
proof -
  let ?g = "\<lparr>api_key = ''sk-test''\<rparr>"
  let ?quoted = "CHR 0x22 # ''hello world'' @ [CHR 0x22]"
  have k: "\<not> truthy (api_key \<lparr>api_key = []\<rparr>)" "truthy (api_key ?g)"
    by (simp_all add: truthy_def)
  have a: "fst (generate_questions_for_tech \<lparr>api_key = []\<rparr> loads_samples Api_raises ''Rust'' 5) =
     QList (map JStr (get_fallback_questions ''Rust'')) \<and>
     length (get_fallback_questions ''Rust'') = 4"
    using question_count_bounds [of "\<lparr>api_key = []\<rparr>" loads_samples Api_raises "''Rust''" 5] k
    by blast
  have d1: "loads_samples (strip ''[1, 2, 3, 4, 5, 6]'') =
      Loaded (JArr [JNum ''1'', JNum ''2'', JNum ''3'', JNum ''4'', JNum ''5'', JNum ''6''])"
    by (simp add: reply_eval)
  have b: "fst (generate_questions_for_tech ?g loads_samples
         (Api_content ''[1, 2, 3, 4, 5, 6]'') ''Rust'' 5) =
       QList (take 5 [JNum ''1'', JNum ''2'', JNum ''3'', JNum ''4'', JNum ''5'', JNum ''6''])"
    using question_count_bounds [of ?g loads_samples "Api_content ''[1, 2, 3, 4, 5, 6]''"
        "''Rust''" 5 _ "''[1, 2, 3, 4, 5, 6]''"] k d1
    by blast
  have d2: "loads_samples (strip ?quoted) = Loaded (JStr ''hello world'')"
    by (simp add: reply_eval)
  have c: "fst (generate_questions_for_tech ?g loads_samples (Api_content ?quoted) ''Rust'' 5) =
       QStr (take 5 ''hello world'')"
    using question_count_bounds [of ?g loads_samples "Api_content ?quoted" "''Rust''" 5 _ ?quoted]
      k d2
    by blast
  have d3: "loads_samples (strip six_lines) = JSONDecodeError"
    by (simp add: reply_eval)
  have l3: "filter (\<lambda>l. l \<noteq> []) (map strip (split_on CHR 0x0A (strip six_lines))) =
      [''Q1'', ''Q2'', ''Q3'', ''Q4'', ''Q5'', ''Q6'']"
    by (simp add: reply_eval)
  have "fst (generate_questions_for_tech ?g loads_samples (Api_content six_lines) ''Rust'' 5) =
       QList (map JStr (take 5 (filter (\<lambda>l. l \<noteq> [])
            (map strip (split_on CHR 0x0A (strip six_lines))))))"
    using question_count_bounds [of ?g loads_samples "Api_content six_lines" "''Rust''" 5 _
        six_lines] k d3
    by blast
  then have d: "fst (generate_questions_for_tech ?g loads_samples (Api_content six_lines) ''Rust'' 5) =
       QList [JStr ''Q1'', JStr ''Q2'', JStr ''Q3'', JStr ''Q4'', JStr ''Q5'']"
    unfolding l3 by simp
  have d4: "loads_samples (strip ''{}'') = Loaded (JObj [])"
    by (simp add: reply_eval)
  have "remote_questions loads_samples (Api_content ''{}'') = None"
    using question_count_bounds [of ?g loads_samples "Api_content ''{}''" "''Rust''" 5] d4
    by blast
  then have e: "fst (generate_questions_for_tech ?g loads_samples (Api_content ''{}'') ''Rust'' 5) =
      QList (map JStr (get_fallback_questions ''Rust''))"
    using question_count_bounds [of ?g loads_samples "Api_content ''{}''" "''Rust''" 5]
    by blast
  show ?thesis using a b c d e by simp
qed

text \<open>
  With a credential, a reply that is the empty JSON array, and a reply that is empty, give no
  question at all.
\<close>

theorem empty_reply_gives_no_questions:
  "fst (generate_questions_for_tech \<lparr>api_key = ''sk-test''\<rparr> loads_empty_array
         (Api_content ''[]'') ''Python'' 3) = QList []
   \<and> q_len (fst (generate_questions_for_tech \<lparr>api_key = ''sk-test''\<rparr> loads_empty_array
         (Api_content ''[]'') ''Python'' 3)) = 0
   \<and> q_len (fst (generate_questions_for_tech \<lparr>api_key = ''sk-test''\<rparr> loads_empty_array
         (Api_content '''') ''Python'' 3)) = 0"
  by (simp add: generate_questions_for_tech_def truthy_def remote_questions_def
      loads_empty_array_def strip_def lstrip_def rstrip_def py_isspace_def Let_def)

section \<open>An empty question list\<close>

text \<open>
  C10. When the stored question list of the current technology is empty, a submission of the
  form is accepted whatever the answer boxes hold: the answers checked are none, the questions
  and no answers are recorded for the technology, and the cursor moves by one. Such a list is
  what generation returns, with a credential, for a reply that decodes to the empty array.
\<close>

theorem empty_question_list_passes:
  "(current_tech_index s < length (tech_stack_list s) \<and>
    tech_questions s (tech_stack_list s ! current_tech_index s) = Some qs \<and>
    q_len qs = 0 \<and> answers_submitted w \<longrightarrow>
      after (conduct_technical_assessment gen loads w s) =
        save_responses (tech_stack_list s ! current_tech_index s) qs [] s
      \<and> (\<exists>m. tech_responses (candidate_data (after (conduct_technical_assessment gen loads w s)))
                = Some m \<and>
              m (tech_stack_list s ! current_tech_index s) =
                Some \<lparr>questions = qs, answers = []\<rparr>)
      \<and> current_tech_index (after (conduct_technical_assessment gen loads w s)) =
          current_tech_index s + 1
      \<and> events (conduct_technical_assessment gen loads w s) =
          [Answers_saved (tech_stack_list s ! current_tech_index s)])
   \<and> (truthy (api_key gen) \<and> loads (strip content) = Loaded (JArr []) \<longrightarrow>
        generate_questions_for_tech gen loads (Api_content content) technology level =
          (QList [], []))
   \<and> list_all truthy (map (answer_areas w) [0..<0])"
proof (intro conjI impI)
  assume a: "current_tech_index s < length (tech_stack_list s) \<and>
    tech_questions s (tech_stack_list s ! current_tech_index s) = Some qs \<and>
    q_len qs = 0 \<and> answers_submitted w"
  let ?t = "tech_stack_list s ! current_tech_index s"
  have e: "ensure_questions gen loads w ?t s = (s, qs, [], [])"
    using a ensure_questions_stored by blast
  have idx: "current_tech_index s < length (tech_stack_list s)" using a by simp
  have c: "conduct_technical_assessment gen loads w s =
      \<lparr>after = save_responses ?t qs [] s,
       shown = [St_header (Assessment_header ?t), St_info (Assessment_info ?t)],
       events = [Answers_saved ?t], rerun = True\<rparr>"
    unfolding conduct_asking [OF idx e] using a by (simp add: Let_def)
  show "after (conduct_technical_assessment gen loads w s) = save_responses ?t qs [] s"
    using c by simp
  show "\<exists>m. tech_responses (candidate_data (after (conduct_technical_assessment gen loads w s)))
                = Some m \<and> m ?t = Some \<lparr>questions = qs, answers = []\<rparr>"
    using c by (simp add: save_responses_def Let_def)
  show "current_tech_index (after (conduct_technical_assessment gen loads w s)) =
          current_tech_index s + 1"
    using c by (simp add: save_responses_def Let_def)
  show "events (conduct_technical_assessment gen loads w s) = [Answers_saved ?t]"
    using c by simp
next
  assume "truthy (api_key gen) \<and> loads (strip content) = Loaded (JArr [])"
  then show "generate_questions_for_tech gen loads (Api_content content) technology level =
          (QList [], [])"
    by (simp add: generate_questions_for_tech_def remote_questions_def Let_def)
next
  show "list_all truthy (map (answer_areas w) [0..<0])" by simp
qed

lemma empty_reply_state:
  "tech_questions (after (run loads_empty_array empty_reply ready_state)) ''Python'' =
     Some (QList []) \<and>
   tech_stack_list (after (run loads_empty_array empty_reply ready_state)) =
     [''Python'', ''JavaScript'', ''React''] \<and>
   current_tech_index (after (run loads_empty_array empty_reply ready_state)) = 0"
  unfolding ready_state_eval
  by (simp add: empty_reply_def world_eval handler_eval remote_questions_def
      loads_empty_array_def strip_def lstrip_def rstrip_def py_isspace_def Let_def)

theorem empty_question_list_passes_witness:
  "tech_questions (after (run loads_empty_array empty_reply ready_state)) ''Python'' =
     Some (QList [])
   \<and> current_tech_index (after (conduct_technical_assessment \<lparr>api_key = []\<rparr> loads_empty_array
        unanswered (after (run loads_empty_array empty_reply ready_state)))) = 1
   \<and> generate_questions_for_tech \<lparr>api_key = ''sk-test''\<rparr> loads_empty_array
        (Api_content ''[]'') ''Python'' 2 = (QList [], [])"
proof -
  let ?s = "after (run loads_empty_array empty_reply ready_state)"
  note t = empty_question_list_passes
    [of ?s "QList []" unanswered "\<lparr>api_key = []\<rparr>" loads_empty_array
        "''[]''" "''Python''" 2]
  note u = empty_question_list_passes
    [of ?s "QList []" unanswered "\<lparr>api_key = ''sk-test''\<rparr>" loads_empty_array
        "''[]''" "''Python''" 2]
  have h: "current_tech_index ?s < length (tech_stack_list ?s) \<and>
    tech_questions ?s (tech_stack_list ?s ! current_tech_index ?s) = Some (QList []) \<and>
    q_len (QList []) = 0 \<and> answers_submitted unanswered"
    using empty_reply_state by (simp add: unanswered_def idle_def)
  have g: "truthy (api_key \<lparr>api_key = ''sk-test''\<rparr>) \<and>
      loads_empty_array (strip ''[]'') = Loaded (JArr [])"
    by (simp add: truthy_def loads_empty_array_def strip_def lstrip_def rstrip_def
        py_isspace_def)
  have a: "current_tech_index (after (conduct_technical_assessment \<lparr>api_key = []\<rparr>
      loads_empty_array unanswered ?s)) = current_tech_index ?s + 1"
    using t h by blast
  have b: "generate_questions_for_tech \<lparr>api_key = ''sk-test''\<rparr> loads_empty_array
        (Api_content ''[]'') ''Python'' 2 = (QList [], [])"
    using u g by blast
  show ?thesis using a b empty_reply_state by simp
qed

end
